theory Spec2Isabelle
  imports Complex_Main "HOL-Library.Char_ord" "HOL-Library.List_Lexorder" "HOL-Library.Multiset"
begin

section \<open>Python strings\<close>

text \<open>
  A Python \<open>str\<close> is modelled as a \<open>string\<close>: a list of 8-bit characters, the UTF-8
  bytes of the text. Substring tests, prefix tests and splitting at an ASCII delimiter
  are the same on the bytes as on the code points, and are written out below.

  \<open>str.lower\<close> and \<open>str.strip\<close> follow the Unicode tables of the interpreter: an
  accented capital is lower-cased, a no-break space is stripped. Where their value
  matters they are parameters of the model, the record \<open>pystr\<close> below, and every theorem
  about the builder and the translator holds for whatever the two methods compute. The
  functions \<open>lower\<close> and \<open>strip\<close> defined here are the two methods on ASCII text: \<open>lower\<close>
  maps \<open>A\<close>..\<open>Z\<close> to \<open>a\<close>..\<open>z\<close>, \<open>strip\<close> removes the ASCII characters for which
  \<open>str.isspace\<close> holds.
\<close>

definition lower_char :: "char \<Rightarrow> char" where
  "lower_char c =
     (case map_of (zip ''ABCDEFGHIJKLMNOPQRSTUVWXYZ'' ''abcdefghijklmnopqrstuvwxyz'') c of
        Some d \<Rightarrow> d
      | None \<Rightarrow> c)"

definition lower :: "string \<Rightarrow> string" where
  "lower s = map lower_char s"

definition is_space :: "char \<Rightarrow> bool" where
  "is_space c \<longleftrightarrow>
     c \<in> set [CHR 0x09, CHR 0x0A, CHR 0x0B, CHR 0x0C, CHR 0x0D,
              CHR 0x1C, CHR 0x1D, CHR 0x1E, CHR 0x1F, CHR 0x20]"

definition strip :: "string \<Rightarrow> string" where
  "strip s = rev (dropWhile is_space (rev (dropWhile is_space s)))"

definition startswith :: "string \<Rightarrow> string \<Rightarrow> bool" where
  "startswith s p \<longleftrightarrow> take (length p) s = p"

text \<open>\<open>contains s p\<close> is Python's \<open>p in s\<close>: \<open>p\<close> occurs in \<open>s\<close> as a substring.\<close>

fun contains :: "string \<Rightarrow> string \<Rightarrow> bool" where
  "contains [] p = (p = [])"
| "contains (c # cs) p = (startswith (c # cs) p \<or> contains cs p)"

text \<open>\<open>split_on d s\<close> is \<open>s.split(d)\<close> for a one-character delimiter.\<close>

fun split_on :: "char \<Rightarrow> string \<Rightarrow> string list" where
  "split_on d [] = [[]]"
| "split_on d (c # cs) =
     (if c = d then [] # split_on d cs
      else (case split_on d cs of
              [] \<Rightarrow> [[c]]
            | w # ws \<Rightarrow> (c # w) # ws))"

text \<open>
  The two methods as parameters, and the instance \<open>ascii\<close> that computes them on ASCII
  text, used where an example on ASCII text is evaluated.
\<close>

record pystr =
  str_lower :: "string \<Rightarrow> string"
  str_strip :: "string \<Rightarrow> string"

definition ascii :: pystr where
  "ascii = \<lparr>str_lower = lower, str_strip = strip\<rparr>"

section \<open>graph_triples.py\<close>

definition UNKNOWN_PLACEHOLDER :: string where
  "UNKNOWN_PLACEHOLDER = ''unknown''"

text \<open>
  \<open>map_health_attribute\<close> only asks whether ASCII keywords occur in the lower-cased
  label. The only characters outside ASCII whose lower case contains an ASCII letter are
  U+0130, which gives \<open>i\<close> followed by a combining dot, and U+212A, which gives \<open>k\<close>;
  no keyword has a \<open>k\<close> or ends in \<open>i\<close>, so the answers are those of \<open>lower\<close> on the
  bytes.
\<close>

definition map_health_attribute :: "string \<Rightarrow> string" where
  "map_health_attribute element =
     (let e = lower element in
      if contains e ''protein'' then ''HasProteinLevel''
      else if contains e ''carb'' then ''HasCarbLevel''
      else if contains e ''fat'' \<and> \<not> contains e ''saturated'' then ''HasFatLevel''
      else if contains e ''saturated_fat'' then ''HasSaturatedFatLevel''
      else if contains e ''calorie'' then ''HasCalorieLevel''
      else if contains e ''sodium'' then ''HasSodiumLevel''
      else if contains e ''sugar'' then ''HasSugarLevel''
      else if contains e ''fiber'' then ''HasFiberLevel''
      else if contains e ''cholesterol'' then ''HasCholesterolLevel''
      else ''HasHealthAttribute'')"

definition split_and_clean :: "pystr \<Rightarrow> string \<Rightarrow> char \<Rightarrow> string list" where
  "split_and_clean U v delimiter =
     map (str_strip U) (filter (\<lambda>v. str_strip U v \<noteq> []) (split_on delimiter v))"

subsection \<open>The graph: \<open>networkx.DiGraph\<close>\<close>

text \<open>
  A node identifier is a Python pair \<open>(type, value)\<close>. The value is the recipe's key for
  a recipe node and a string for every other node.
\<close>

datatype 'k pyobj = Key 'k | Txt string

type_synonym 'k node = "string \<times> 'k pyobj"

text \<open>
  A \<open>DiGraph\<close> keeps one attribute dictionary per node and one per ordered pair of
  nodes: adding an edge that is already there updates its attributes and adds nothing.
  The only edge attribute the builder sets is \<open>relation\<close>, so an edge maps to its
  relation.
\<close>

record 'k graph =
  nodes :: "'k node \<rightharpoonup> (string \<rightharpoonup> 'k pyobj)"
  edges :: "('k node \<times> 'k node) \<rightharpoonup> string"

definition DiGraph :: "'k graph" where
  "DiGraph = \<lparr>nodes = Map.empty, edges = Map.empty\<rparr>"

definition has_node :: "'k graph \<Rightarrow> 'k node \<Rightarrow> bool" where
  "has_node G n \<longleftrightarrow> nodes G n \<noteq> None"

definition add_node :: "'k graph \<Rightarrow> 'k node \<Rightarrow> (string \<rightharpoonup> 'k pyobj) \<Rightarrow> 'k graph" where
  "add_node G n attr =
     G\<lparr>nodes := (nodes G)(n \<mapsto> (case nodes G n of None \<Rightarrow> attr | Some old \<Rightarrow> old ++ attr))\<rparr>"

definition ensure_node :: "'k graph \<Rightarrow> 'k node \<Rightarrow> 'k graph" where
  "ensure_node G n = (if has_node G n then G else G\<lparr>nodes := (nodes G)(n \<mapsto> Map.empty)\<rparr>)"

definition add_edge :: "'k graph \<Rightarrow> 'k node \<Rightarrow> 'k node \<Rightarrow> string \<Rightarrow> 'k graph" where
  "add_edge G u v relation =
     (let G1 = ensure_node (ensure_node G u) v
      in G1\<lparr>edges := (edges G1)((u, v) \<mapsto> relation)\<rparr>)"

subsection \<open>Recipe records\<close>

text \<open>
  A record is a dictionary from column names to cells. A cell read from the data frame is
  a string or some other object (a number, or the float \<open>nan\<close> of a missing value); of
  such an object the builder only uses its truth value and its \<open>str\<close> rendering.
\<close>

datatype cell = Text string | Other bool string

fun truthy :: "cell \<Rightarrow> bool" where
  "truthy (Text s) = (s \<noteq> [])"
| "truthy (Other b r) = b"

fun str_of :: "cell \<Rightarrow> string" where
  "str_of (Text s) = s"
| "str_of (Other b r) = r"

type_synonym details = "string \<rightharpoonup> cell"

text \<open>
  The guard of every attribute:
  \<^verbatim>\<open>element and element != UNKNOWN_PLACEHOLDER and str(element).strip() != ""\<close>.
\<close>

definition usable :: "pystr \<Rightarrow> cell option \<Rightarrow> bool" where
  "usable U element =
     (case element of
        None \<Rightarrow> False
      | Some c \<Rightarrow> truthy c \<and> c \<noteq> Text UNKNOWN_PLACEHOLDER \<and> str_strip U (str_of c) \<noteq> [])"

subsection \<open>\<open>create_graph_and_triples\<close>\<close>

text \<open>
  A triple is \<open>(str(recipe_node), relation, str(node_id))\<close> in the source. \<open>str\<close> of a
  pair is its Python literal, which determines the pair, so the model keeps the pairs.
\<close>

type_synonym 'k triple = "'k node \<times> string \<times> 'k node"

type_synonym 'k builder = "'k graph \<times> 'k triple list"

text \<open>
  The four statements every attribute ends with: add the node unless it is there, add the
  edge, append the triple.
\<close>

definition link ::
  "'k builder \<Rightarrow> 'k node \<Rightarrow> string \<Rightarrow> 'k node \<Rightarrow> string \<Rightarrow> string \<Rightarrow> 'k builder" where
  "link st recipe_node relation node_id node_type label =
     (let G = fst st;
          G1 = (if \<not> has_node G node_id
                then add_node G node_id [''type'' \<mapsto> Txt node_type, ''label'' \<mapsto> Txt label]
                else G);
          G2 = add_edge G1 recipe_node node_id relation
      in (G2, snd st @ [(recipe_node, relation, node_id)]))"

definition attribute_mappings :: "(string \<times> string \<times> string) list" where
  "attribute_mappings =
     [(''Cooking_Method'', ''usesCookingMethod'', ''cooking_method''),
      (''servings_bin'', ''hasServingsBin'', ''servings_bin''),
      (''cook_time'', ''hasCookTime'', ''cook_time''),
      (''CuisineRegion'', ''hasCuisineRegion'', ''cuisine_region'')]"

definition list_attributes :: "(string \<times> string \<times> string \<times> char) list" where
  "list_attributes =
     [(''Diet_Types'', ''hasDietType'', ''diet_type'', CHR '',''),
      (''meal_type'', ''isForMealType'', ''meal_type'', CHR '','')]"

definition ingredient_relation :: string where
  "ingredient_relation = ''containsIngredient''"

definition ingredient_node_type :: string where
  "ingredient_node_type = ''ingredient''"

definition ingredient_delimiter :: char where
  "ingredient_delimiter = CHR '';''"

definition process_single ::
  "pystr \<Rightarrow> 'k node \<Rightarrow> details \<Rightarrow> 'k builder \<Rightarrow> string \<times> string \<times> string \<Rightarrow> 'k builder" where
  "process_single U recipe_node details st m =
     (case m of (col, relation, node_type) \<Rightarrow>
        (case details col of
           None \<Rightarrow> st
         | Some element \<Rightarrow>
             if usable U (Some element)
             then (let element_clean = str_strip U (str_of element)
                   in link st recipe_node relation (node_type, Txt element_clean) node_type
                        element_clean)
             else st))"

definition process_healthy :: "pystr \<Rightarrow> 'k node \<Rightarrow> details \<Rightarrow> 'k builder \<Rightarrow> 'k builder" where
  "process_healthy U recipe_node details st =
     (case details ''Healthy_Type'' of
        None \<Rightarrow> st
      | Some healthy \<Rightarrow>
          if usable U (Some healthy)
          then foldl (\<lambda>st element.
                        if element \<noteq> []
                        then link st recipe_node (map_health_attribute element)
                               (''health_attribute'', Txt element) ''health_attribute'' element
                        else st)
                 st (split_and_clean U (str_of healthy) CHR '','')
          else st)"

definition process_list ::
  "pystr \<Rightarrow> 'k node \<Rightarrow> details \<Rightarrow> 'k builder \<Rightarrow> string \<times> string \<times> string \<times> char \<Rightarrow> 'k builder" where
  "process_list U recipe_node details st m =
     (case m of (col, relation, node_type, delimiter) \<Rightarrow>
        (case details col of
           None \<Rightarrow> st
         | Some v \<Rightarrow>
             if usable U (Some v)
             then foldl (\<lambda>st element.
                           if element \<noteq> []
                           then link st recipe_node relation (node_type, Txt element) node_type
                                  element
                           else st)
                    st (split_and_clean U (str_of v) delimiter)
             else st))"

definition process_ingredients :: "pystr \<Rightarrow> 'k node \<Rightarrow> details \<Rightarrow> 'k builder \<Rightarrow> 'k builder" where
  "process_ingredients U recipe_node details st =
     (case details ''BestUsdaIngredientName'' of
        None \<Rightarrow> st
      | Some best_usda \<Rightarrow>
          if usable U (Some best_usda)
          then foldl (\<lambda>st ingredient.
                        if ingredient \<noteq> []
                        then link st recipe_node ingredient_relation
                               (''ingredient'', Txt (str_lower U ingredient)) ingredient_node_type
                               ingredient
                        else st)
                 st (split_and_clean U (str_of best_usda) ingredient_delimiter)
          else st)"

text \<open>The body of the loop over \<open>recipes.items()\<close>.\<close>

definition process_recipe :: "pystr \<Rightarrow> 'k builder \<Rightarrow> 'k \<times> details \<Rightarrow> 'k builder" where
  "process_recipe U st r =
     (case r of (recipe_id, details) \<Rightarrow>
        (let recipe_node = (''recipe'', Key recipe_id);
             G = add_node (fst st) recipe_node
                   [''type'' \<mapsto> Txt ''recipe'', ''RecipeId'' \<mapsto> Key recipe_id];
             st1 = foldl (process_single U recipe_node details) (G, snd st) attribute_mappings;
             st2 = process_healthy U recipe_node details st1;
             st3 = foldl (process_list U recipe_node details) st2 list_attributes
         in process_ingredients U recipe_node details st3))"

text \<open>
  The dictionary \<open>recipes\<close> is the list of its items in iteration order; its keys are
  distinct.
\<close>

definition create_graph_and_triples :: "pystr \<Rightarrow> ('k \<times> details) list \<Rightarrow> 'k builder" where
  "create_graph_and_triples U recipes = foldl (process_recipe U) (DiGraph, []) recipes"

section \<open>model.py\<close>

text \<open>
  \<open>tuple_to_canonical\<close> calls four operations of Python itself: \<open>ast.literal_eval\<close>,
  indexing of the value it returns, the formatting of an f-string field, and \<open>print\<close>.
  They are parameters of the model, over any type \<open>'v\<close> of Python values. Each of them
  either returns or raises an instance of \<open>Exception\<close>, which carries its message;
  \<open>print\<close> raises when standard output cannot encode the text.
\<close>

datatype pyexc = Exception string

record 'v python =
  literal_eval :: "string \<Rightarrow> pyexc + 'v"
  getitem :: "'v \<Rightarrow> nat \<Rightarrow> pyexc + 'v"
  format :: "'v \<Rightarrow> pyexc + string"
  print :: "string \<Rightarrow> pyexc + unit"

definition try_bind :: "pyexc + 'a \<Rightarrow> ('a \<Rightarrow> pyexc + 'b) \<Rightarrow> pyexc + 'b" where
  "try_bind m f = (case m of Inl e \<Rightarrow> Inl e | Inr x \<Rightarrow> f x)"

text \<open>The body of the \<open>try\<close> block.\<close>

definition tuple_to_canonical_try :: "'v python \<Rightarrow> string \<Rightarrow> pyexc + string" where
  "tuple_to_canonical_try py s =
     try_bind (literal_eval py s) (\<lambda>t.
     try_bind (getitem py t 0) (\<lambda>t0.
     try_bind (format py t0) (\<lambda>s0.
     try_bind (getitem py t 1) (\<lambda>t1.
     try_bind (format py t1) (\<lambda>s1.
     Inr (s0 @ ''_'' @ s1))))))"

text \<open>
  The function returns its result together with the lines it printed. The handler catches
  every exception of the \<open>try\<close> block; an exception of the \<open>print\<close> in the handler
  leaves the function, and the result is \<open>Inl\<close>.
\<close>

definition tuple_to_canonical :: "'v python \<Rightarrow> string \<Rightarrow> (pyexc + string) \<times> string list" where
  "tuple_to_canonical py s =
     (case tuple_to_canonical_try py s of
        Inr r \<Rightarrow> (Inr r, [])
      | Inl (Exception msg) \<Rightarrow>
          (let line = ''Error converting tuple: '' @ msg @ '' => '' @ s
           in case print py line of
                Inl e \<Rightarrow> (Inl e, [])
              | Inr u \<Rightarrow> (Inr s, [line])))"

text \<open>
  The canonical string of a node, as the docstring of \<open>tuple_to_canonical\<close> gives it:
  \<open>('meal_type', 'dinner')\<close> becomes \<open>meal_type_dinner\<close>. \<open>show\<close> renders a recipe's key.
\<close>

definition canonical :: "('k \<Rightarrow> string) \<Rightarrow> 'k node \<Rightarrow> string" where
  "canonical show n =
     fst n @ ''_'' @ (case snd n of Txt v \<Rightarrow> v | Key k \<Rightarrow> show k)"

section \<open>recommender.py\<close>

subsection \<open>\<open>map_user_input_to_criteria\<close>\<close>

type_synonym criterion = "string \<times> string \<times> real"

definition weights_get :: "(string \<rightharpoonup> real) \<Rightarrow> string \<Rightarrow> real" where
  "weights_get weights k = (case weights k of Some w \<Rightarrow> w | None \<Rightarrow> 1)"

text \<open>\<open>if x:\<close> on an optional string: it is there and not empty.\<close>

fun given :: "string option \<Rightarrow> bool" where
  "given None = False"
| "given (Some s) = (s \<noteq> [])"

definition map_user_input_to_criteria ::
  "pystr \<Rightarrow> string option \<Rightarrow> string option \<Rightarrow> string list \<Rightarrow> string list \<Rightarrow> string option \<Rightarrow>
   string list \<Rightarrow> string option \<Rightarrow> string list \<Rightarrow> (string \<rightharpoonup> real) \<Rightarrow> criterion list" where
  "map_user_input_to_criteria U cooking_method servings_bin diet_types meal_type cook_time
     health_types cuisine_region ingredients weights =
     (case cooking_method of
        Some v \<Rightarrow> if given cooking_method
                  then [(''cooking_method_'' @ str_lower U (str_strip U v), ''usesCookingMethod'',
                         weights_get weights ''cooking_method'')]
                  else []
      | None \<Rightarrow> [])
     @ (case servings_bin of
          Some v \<Rightarrow> if given servings_bin
                    then [(''servings_bin_'' @ str_strip U v, ''hasServingsBin'',
                           weights_get weights ''servings_bin'')]
                    else []
        | None \<Rightarrow> [])
     @ map (\<lambda>dt. (''diet_type_'' @ str_strip U dt, ''hasDietType'',
                  weights_get weights ''diet_types'')) diet_types
     @ map (\<lambda>mt. (''meal_type_'' @ str_strip U mt, ''isForMealType'',
                  weights_get weights ''meal_type'')) meal_type
     @ (case cook_time of
          Some v \<Rightarrow> if given cook_time
                    then [(''cook_time_'' @ str_strip U v, ''hasCookTime'',
                           weights_get weights ''cook_time'')]
                    else []
        | None \<Rightarrow> [])
     @ map (\<lambda>ht. (''health_attribute_'' @ str_strip U ht, map_health_attribute (str_strip U ht),
                  weights_get weights ''healthy_type'')) health_types
     @ (case cuisine_region of
          Some v \<Rightarrow> if given cuisine_region
                    then [(''cuisine_region_'' @ str_strip U v, ''hasCuisineRegion'',
                           weights_get weights ''cuisine_region'')]
                    else []
        | None \<Rightarrow> [])
     @ map (\<lambda>ing. (''ingredient_'' @ str_strip U ing, ''containsIngredient'',
                   weights_get weights ''ingredients'')) ingredients"

subsection \<open>\<open>_normalize_scores\<close>\<close>

text \<open>
  Scores are floats in the source and real numbers here: finite, and without rounding.
  \<open>MinMaxScaler\<close> with its default range \<open>(0, 1)\<close> computes
  \<open>scale_ = 1 / data_range\<close> and \<open>min_ = 0 - data_min * scale_\<close>, and maps \<open>x\<close> to
  \<open>x * scale_ + min_\<close>. Before it divides, \<open>_handle_zeros_in_scale\<close> replaces a range
  below ten machine epsilons by one; \<open>eps\<close> is the epsilon of a 64-bit float. The scaler
  refuses an empty column; \<open>_normalize_scores\<close> never hands it one.
\<close>

definition eps :: real where
  "eps = 1 / 2 ^ 52"

definition handle_zeros_in_scale :: "real \<Rightarrow> real" where
  "handle_zeros_in_scale scale = (if scale < 10 * eps then 1 else scale)"

fun MinMaxScaler_fit_transform :: "real list \<Rightarrow> real list" where
  "MinMaxScaler_fit_transform [] = []"
| "MinMaxScaler_fit_transform (x # xs) =
     (let data_min = fold min xs x;
          data_max = fold max xs x;
          data_range = data_max - data_min;
          scale = (1 - 0) / handle_zeros_in_scale data_range;
          min_0 = 0 - data_min * scale
      in map (\<lambda>v. v * scale + min_0) (x # xs))"

text \<open>A row of the data frame after \<open>_normalize_scores\<close>: label, score, normalized score.\<close>

definition normalize_scores :: "(string \<times> real) list \<Rightarrow> (string \<times> real \<times> real) list" where
  "normalize_scores df =
     (if df = [] then []
      else zip (map fst df) (zip (map snd df) (MinMaxScaler_fit_transform (map snd df))))"

subsection \<open>\<open>get_matching_recipes\<close>\<close>

text \<open>
  The embedding model is a parameter: \<open>predict relation tail\<close> is the data frame of
  \<open>predict_target\<close>, its rows as pairs of \<open>head_label\<close> and \<open>score\<close>.
\<close>

type_synonym adapter = "string \<Rightarrow> string \<Rightarrow> (string \<times> real) list"

type_synonym frame = "(string \<times> real) list"

text \<open>The body of the loop over the criteria; the frame keeps label and weighted score.\<close>

definition score_criterion :: "adapter \<Rightarrow> criterion \<Rightarrow> frame" where
  "score_criterion predict c =
     (case c of (tail, relation, weight) \<Rightarrow>
        map (\<lambda>(head_label, score, normalized_score). (head_label, normalized_score * weight))
          (normalize_scores (predict relation tail)))"

text \<open>
  The loop threads two things: the list \<open>all_preds\<close> and the calls made to the model, each
  recorded as the pair of relation and tail it was asked about.
\<close>

definition predict_all ::
  "adapter \<Rightarrow> criterion list \<Rightarrow> frame list \<times> (string \<times> string) list" where
  "predict_all predict criteria =
     foldl (\<lambda>(all_preds, calls) c.
              (all_preds @ [score_criterion predict c], calls @ [(fst (snd c), fst c)]))
       ([], []) criteria"

text \<open>
  \<open>merge\<close> on \<open>head_label\<close>. An inner merge pairs every row on the left with every row
  on the right that has its label, in the order of the left rows. An outer merge keeps
  the unmatched rows of both sides as well, the missing score filled with zero, and sorts
  the result by label.
\<close>

definition merge_inner :: "frame \<Rightarrow> frame \<Rightarrow> frame" where
  "merge_inner left right =
     concat (map (\<lambda>(l, x). map (\<lambda>(l', y). (l, x + y)) (filter (\<lambda>r. fst r = l) right)) left)"

definition merge_outer :: "frame \<Rightarrow> frame \<Rightarrow> frame" where
  "merge_outer left right =
     sort_key fst
       (concat (map (\<lambda>(l, x).
                  (let matches = filter (\<lambda>r. fst r = l) right
                   in if matches = [] then [(l, x + 0)]
                      else map (\<lambda>(l', y). (l, x + y)) matches)) left)
        @ map (\<lambda>(l', y). (l', 0 + y)) (filter (\<lambda>r. fst r \<notin> fst ` set left) right))"

definition merge_all :: "bool \<Rightarrow> frame \<Rightarrow> frame list \<Rightarrow> frame" where
  "merge_all flexible first others =
     foldl (\<lambda>merged other. if flexible then merge_outer merged other
                           else merge_inner merged other) first others"

text \<open>\<open>node_str.split("recipe_", 1)\<close>: the text before and after the first occurrence.\<close>

fun split_once :: "string \<Rightarrow> string \<Rightarrow> (string \<times> string) option" where
  "split_once [] sep = None"
| "split_once (c # cs) sep =
     (if startswith (c # cs) sep then Some ([], drop (length sep) (c # cs))
      else map_option (\<lambda>(a, b). (c # a, b)) (split_once cs sep))"

definition parse_recipe_id :: "string \<Rightarrow> pyexc + string" where
  "parse_recipe_id node_str =
     (case split_once node_str ''recipe_'' of
        None \<Rightarrow> Inl (Exception ''list index out of range'')
      | Some (a, b) \<Rightarrow> Inr b)"

fun try_map :: "('a \<Rightarrow> pyexc + 'b) \<Rightarrow> 'a list \<Rightarrow> pyexc + 'b list" where
  "try_map f [] = Inr []"
| "try_map f (x # xs) =
     try_bind (f x) (\<lambda>y. try_bind (try_map f xs) (\<lambda>ys. Inr (y # ys)))"

text \<open>\<open>DataFrame.head(n)\<close>: the first \<open>n\<close> rows, or all but the last \<open>-n\<close> when \<open>n\<close> is negative.\<close>

definition head :: "int \<Rightarrow> 'a list \<Rightarrow> 'a list" where
  "head n rows = (if 0 \<le> n then take (nat n) rows else take (length rows - nat (- n)) rows)"

text \<open>
  The frame the result is read from: merged, filtered to recipes, sorted by descending
  score, cut. Rows of equal score keep their order here; pandas promises no order among
  them.
\<close>

definition ranked :: "bool \<Rightarrow> int \<Rightarrow> frame \<Rightarrow> frame list \<Rightarrow> frame" where
  "ranked flexible top_k first others =
     (let merged = merge_all flexible first others;
          merged = filter (\<lambda>row. startswith (fst row) ''recipe_'') merged;
          merged = sort_key (\<lambda>row. - snd row) merged
      in head top_k merged)"

definition get_matching_recipes ::
  "adapter \<Rightarrow> criterion list \<Rightarrow> int \<Rightarrow> bool \<Rightarrow> (pyexc + string list) \<times> (string \<times> string) list" where
  "get_matching_recipes predict criteria top_k flexible =
     (if criteria = [] then (Inr [], [])
      else (case predict_all predict criteria of (all_preds, calls) \<Rightarrow>
              (case all_preds of
                 [] \<Rightarrow> (Inl (Exception ''list index out of range''), calls)
               | first # others \<Rightarrow>
                   (try_map parse_recipe_id (map fst (ranked flexible top_k first others)),
                    calls))))"

section \<open>What the builder emits\<close>

text \<open>
  The builder state after a record is described by the list of items the record gives
  rise to: for each, the relation, the node, its type and its label. The lemmas below
  show that the loops of \<open>create_graph_and_triples\<close> link exactly these items, in this
  order.
\<close>

type_synonym 'k item = "string \<times> 'k node \<times> string \<times> string"

definition links :: "'k builder \<Rightarrow> 'k node \<Rightarrow> 'k item list \<Rightarrow> 'k builder" where
  "links st recipe_node items =
     foldl (\<lambda>st (relation, node_id, node_type, label).
              link st recipe_node relation node_id node_type label) st items"

definition single_items :: "pystr \<Rightarrow> details \<Rightarrow> string \<times> string \<times> string \<Rightarrow> 'k item list" where
  "single_items U details m =
     (case m of (col, relation, node_type) \<Rightarrow>
        (case details col of
           None \<Rightarrow> []
         | Some element \<Rightarrow>
             if usable U (Some element)
             then [(relation, (node_type, Txt (str_strip U (str_of element))), node_type,
                    str_strip U (str_of element))]
             else []))"

definition tokens :: "pystr \<Rightarrow> details \<Rightarrow> string \<Rightarrow> char \<Rightarrow> string list" where
  "tokens U details col delimiter =
     (case details col of
        None \<Rightarrow> []
      | Some v \<Rightarrow>
          if usable U (Some v)
          then filter (\<lambda>e. e \<noteq> []) (split_and_clean U (str_of v) delimiter)
          else [])"

definition healthy_items :: "pystr \<Rightarrow> details \<Rightarrow> 'k item list" where
  "healthy_items U details =
     map (\<lambda>e. (map_health_attribute e, (''health_attribute'', Txt e), ''health_attribute'', e))
       (tokens U details ''Healthy_Type'' CHR '','')"

definition list_items :: "pystr \<Rightarrow> details \<Rightarrow> string \<times> string \<times> string \<times> char \<Rightarrow> 'k item list" where
  "list_items U details m =
     (case m of (col, relation, node_type, delimiter) \<Rightarrow>
        map (\<lambda>e. (relation, (node_type, Txt e), node_type, e)) (tokens U details col delimiter))"

definition ingredient_items :: "pystr \<Rightarrow> details \<Rightarrow> 'k item list" where
  "ingredient_items U details =
     map (\<lambda>e. (ingredient_relation, (''ingredient'', Txt (str_lower U e)), ingredient_node_type, e))
       (tokens U details ''BestUsdaIngredientName'' ingredient_delimiter)"

definition recipe_items :: "pystr \<Rightarrow> details \<Rightarrow> 'k item list" where
  "recipe_items U details =
     concat (map (single_items U details) attribute_mappings)
     @ healthy_items U details
     @ concat (map (list_items U details) list_attributes)
     @ ingredient_items U details"

definition recipe_triples :: "pystr \<Rightarrow> 'k \<times> details \<Rightarrow> 'k triple list" where
  "recipe_triples U r =
     map (\<lambda>(relation, node_id, node_type, label). ((''recipe'', Key (fst r)), relation, node_id))
       (recipe_items U (snd r))"

text \<open>The relation a node is reached by is determined by the node.\<close>

definition relation_for :: "'k node \<Rightarrow> string" where
  "relation_for n =
     (if fst n = ''cooking_method'' then ''usesCookingMethod''
      else if fst n = ''servings_bin'' then ''hasServingsBin''
      else if fst n = ''cook_time'' then ''hasCookTime''
      else if fst n = ''cuisine_region'' then ''hasCuisineRegion''
      else if fst n = ''diet_type'' then ''hasDietType''
      else if fst n = ''meal_type'' then ''isForMealType''
      else if fst n = ''ingredient'' then ''containsIngredient''
      else (case snd n of Txt v \<Rightarrow> map_health_attribute v | Key k \<Rightarrow> []))"

text \<open>The invariant of the builder: the edges and the triples tell the same facts.\<close>

definition consistent :: "'k builder \<Rightarrow> bool" where
  "consistent st \<longleftrightarrow>
     (\<forall>h r t. (h, r, t) \<in> set (snd st) \<longrightarrow> r = relation_for t) \<and>
     (\<forall>h r t. edges (fst st) (h, t) = Some r \<longleftrightarrow> (h, r, t) \<in> set (snd st))"

section \<open>Instances of Python for examples\<close>

text \<open>
  Values are strings and tuples. \<open>literal_eval\<close> reads the literal of the docstring of
  \<open>tuple_to_canonical\<close>, \<open>('meal_type', 'dinner')\<close>, and the one-item tuple
  \<open>('meal_type',)\<close>; every other text is taken as one that is no literal. Indexing a
  tuple gives the item, indexing a string the one-character string. A string is
  formatted as itself and a tuple as its literal, written here for strings without quotes
  or escapes. The messages of the exceptions are shortened; the theorems hold for every
  message. \<open>example_python\<close> prints to a console that takes any text,
  \<open>ascii_console_python\<close> to one whose encoding is ASCII, where \<open>print\<close> raises on any
  other byte.
\<close>

datatype pyval = PStr string | PTuple "pyval list"

fun join :: "string \<Rightarrow> string list \<Rightarrow> string" where
  "join sep [] = []"
| "join sep [x] = x"
| "join sep (x # y # ys) = x @ sep @ join sep (y # ys)"

fun py_repr :: "pyval \<Rightarrow> string" where
  "py_repr (PStr s) = [CHR 0x27] @ s @ [CHR 0x27]"
| "py_repr (PTuple xs) =
     ''('' @ join '', '' (map py_repr xs) @ (if length xs = 1 then '','' else []) @ '')''"

definition docstring_literal :: string where
  "docstring_literal =
     ''('' @ [CHR 0x27] @ ''meal_type'' @ [CHR 0x27] @ '', ''
     @ [CHR 0x27] @ ''dinner'' @ [CHR 0x27] @ '')''"

definition single_literal :: string where
  "single_literal = ''('' @ [CHR 0x27] @ ''meal_type'' @ [CHR 0x27] @ '',)''"

definition example_python :: "pyval python" where
  "example_python =
     \<lparr>literal_eval = (\<lambda>s. if s = docstring_literal
                            then Inr (PTuple [PStr ''meal_type'', PStr ''dinner''])
                            else if s = single_literal
                            then Inr (PTuple [PStr ''meal_type''])
                            else Inl (Exception ''invalid syntax'')),
      getitem = (\<lambda>v i. case v of
                         PTuple xs \<Rightarrow> if i < length xs then Inr (xs ! i)
                                      else Inl (Exception ''tuple index out of range'')
                       | PStr s \<Rightarrow> if i < length s then Inr (PStr [s ! i])
                                   else Inl (Exception ''string index out of range'')),
      format = (\<lambda>v. case v of
                      PStr s \<Rightarrow> Inr s
                    | PTuple xs \<Rightarrow> Inr (py_repr v)),
      print = (\<lambda>line. Inr ())\<rparr>"

definition ascii_console_python :: "pyval python" where
  "ascii_console_python =
     example_python
       \<lparr>print := (\<lambda>line. if list_all (\<lambda>c. of_char c < (128 :: nat)) line then Inr ()
                          else Inl (Exception ''codec cannot encode character''))\<rparr>"

section \<open>What the two sides hand to the embedding model\<close>

text \<open>
  Of a triple the model sees the canonical string of the tail and the relation; of a
  criterion, the tail and the relation.
\<close>

definition builder_pairs :: "('k \<Rightarrow> string) \<Rightarrow> 'k triple list \<Rightarrow> (string \<times> string) list" where
  "builder_pairs show ts = map (\<lambda>(h, r, t). (canonical show t, r)) ts"

definition criteria_pairs :: "criterion list \<Rightarrow> (string \<times> string) list" where
  "criteria_pairs cs = map (\<lambda>(tail, relation, weight). (tail, relation)) cs"

section \<open>The score a frame gives a label\<close>

text \<open>The weighted score of a label in a frame; a label the frame lacks counts as 0.\<close>

definition score_in :: "frame \<Rightarrow> string \<Rightarrow> real" where
  "score_in f l = (case map_of f l of Some w \<Rightarrow> w | None \<Rightarrow> 0)"

section \<open>Properties of the mapper\<close>

lemma contains_append_left: "contains s (p @ q) \<Longrightarrow> contains s p"
proof (induction s)
  case Nil
  then show ?case by simp
next
  case (Cons c cs)
  show ?case
  proof (cases "startswith (c # cs) (p @ q)")
    case True
    then have "take (length p) (c # cs) = p"
      unfolding startswith_def
      by (metis append_eq_conv_conj append_take_drop_id take_take)
    then show ?thesis by (simp add: startswith_def)
  next
    case False
    with Cons.prems have "contains cs (p @ q)" by simp
    then show ?thesis using Cons.IH by simp
  qed
qed

text \<open>
  C1, as stated: every label that contains both "saturated" and "fat", in any casing, is
  mapped to \<open>HasSaturatedFatLevel\<close>. The label "saturated fat", written with a space,
  contains both and falls through to the catch-all.
\<close>

theorem map_health_attribute_saturated_fat_counterexample:
  "contains (lower ''saturated fat'') ''saturated'' \<and> contains (lower ''saturated fat'') ''fat''
   \<and> map_health_attribute ''saturated fat'' = ''HasHealthAttribute''
   \<and> map_health_attribute ''saturated fat'' \<noteq> ''HasSaturatedFatLevel''"
  by (simp add: map_health_attribute_def lower_def lower_char_def startswith_def)

text \<open>
  C1, amended: a label whose lower-cased form contains "saturated" is never mapped to
  \<open>HasFatLevel\<close>, and it is mapped to \<open>HasSaturatedFatLevel\<close> exactly when its lower-cased
  form contains "saturated_fat" and neither "protein" nor "carb".
\<close>

theorem map_health_attribute_saturated:
  assumes "contains (lower s) ''saturated''"
  shows "map_health_attribute s \<noteq> ''HasFatLevel'' \<and>
         (map_health_attribute s = ''HasSaturatedFatLevel'' \<longleftrightarrow>
            contains (lower s) ''saturated_fat'' \<and> \<not> contains (lower s) ''protein''
            \<and> \<not> contains (lower s) ''carb'')"
  using assms by (simp add: map_health_attribute_def Let_def)

theorem map_health_attribute_saturated_witness:
  "contains (lower ''Low_Saturated_Fat'') ''saturated''
   \<and> map_health_attribute ''Low_Saturated_Fat'' \<noteq> ''HasFatLevel''
   \<and> map_health_attribute ''Low_Saturated_Fat'' = ''HasSaturatedFatLevel''"
proof -
  have h: "contains (lower ''Low_Saturated_Fat'') ''saturated''"
    by (simp add: lower_def lower_char_def startswith_def)
  have c: "contains (lower ''Low_Saturated_Fat'') ''saturated_fat''
           \<and> \<not> contains (lower ''Low_Saturated_Fat'') ''protein''
           \<and> \<not> contains (lower ''Low_Saturated_Fat'') ''carb''"
    by (simp add: lower_def lower_char_def startswith_def)
  show ?thesis using h c map_health_attribute_saturated [OF h] by simp
qed

section \<open>The builder links the items of each record\<close>

lemma links_Nil [simp]: "links st rn [] = st"
  by (simp add: links_def)

lemma links_Cons:
  "links st rn (i # items) =
     links (link st rn (fst i) (fst (snd i)) (fst (snd (snd i))) (snd (snd (snd i)))) rn items"
  by (cases i) (simp add: links_def)

lemma links_append: "links st rn (xs @ ys) = links (links st rn xs) rn ys"
  by (simp add: links_def)

lemma foldl_links_concat:
  "foldl (\<lambda>st m. links st rn (f m)) st ms = links st rn (concat (map f ms))"
  by (induction ms arbitrary: st) (simp_all add: links_append)

lemma foldl_link_tokens:
  "foldl (\<lambda>st e. if e \<noteq> [] then link st rn (rel e) (nd e) ty (lab e) else st) st xs
   = links st rn (map (\<lambda>e. (rel e, nd e, ty, lab e)) (filter (\<lambda>e. e \<noteq> []) xs))"
  by (induction xs arbitrary: st) (simp_all add: links_Cons)

lemma process_single_links: "process_single U rn d st m = links st rn (single_items U d m)"
  by (cases m) (simp add: process_single_def single_items_def links_Cons Let_def split: option.splits)

lemma process_healthy_links: "process_healthy U rn d st = links st rn (healthy_items U d)"
  by (simp add: process_healthy_def healthy_items_def tokens_def foldl_link_tokens split: option.splits)

lemma process_list_links: "process_list U rn d st m = links st rn (list_items U d m)"
  by (cases m) (simp add: process_list_def list_items_def tokens_def foldl_link_tokens split: option.splits)

lemma process_ingredients_links: "process_ingredients U rn d st = links st rn (ingredient_items U d)"
  by (simp add: process_ingredients_def ingredient_items_def tokens_def foldl_link_tokens split: option.splits)

lemma process_recipe_links:
  "process_recipe U st (rid, d) =
     links (add_node (fst st) (''recipe'', Key rid)
              [''type'' \<mapsto> Txt ''recipe'', ''RecipeId'' \<mapsto> Key rid], snd st)
       (''recipe'', Key rid) (recipe_items U d)"
proof -
  have 1: "process_single U rn d = (\<lambda>st m. links st rn (single_items U d m))" for rn :: "'a node"
    by (intro ext) (rule process_single_links)
  have 2: "process_list U rn d = (\<lambda>st m. links st rn (list_items U d m))" for rn :: "'a node"
    by (intro ext) (rule process_list_links)
  show ?thesis
    by (simp add: process_recipe_def Let_def 1 2 foldl_links_concat process_healthy_links
        process_ingredients_links recipe_items_def links_append)
qed

lemma link_snd: "snd (link st rn rel n ty lab) = snd st @ [(rn, rel, n)]"
  by (simp add: link_def Let_def)

lemma edges_add_node [simp]: "edges (add_node G n a) = edges G"
  by (simp add: add_node_def)

lemma edges_ensure_node [simp]: "edges (ensure_node G n) = edges G"
  by (simp add: ensure_node_def)

lemma link_edges: "edges (fst (link st rn rel n ty lab)) = (edges (fst st))((rn, n) \<mapsto> rel)"
  by (simp add: link_def Let_def add_edge_def)

lemma links_snd:
  "snd (links st rn items) = snd st @ map (\<lambda>(rel, n, ty, lab). (rn, rel, n)) items"
  by (induction items arbitrary: st) (auto simp: links_Cons link_snd)

lemma consistent_link:
  assumes "consistent st" and "rel = relation_for n"
  shows "consistent (link st rn rel n ty lab)"
  using assms unfolding consistent_def link_snd link_edges by auto

lemma consistent_links:
  assumes "consistent st" and "\<forall>i \<in> set items. fst i = relation_for (fst (snd i))"
  shows "consistent (links st rn items)"
  using assms by (induction items arbitrary: st) (auto simp: links_Cons consistent_link)

lemma recipe_items_relation:
  "i \<in> set (recipe_items U d) \<Longrightarrow> fst i = relation_for (fst (snd i))"
  by (auto simp: recipe_items_def single_items_def attribute_mappings_def healthy_items_def
      list_items_def list_attributes_def ingredient_items_def relation_for_def
      ingredient_relation_def split: option.splits if_splits)

lemma consistent_process_recipe:
  assumes "consistent st" shows "consistent (process_recipe U st r)"
proof (cases r)
  case (Pair rid d)
  have "consistent (add_node (fst st) (''recipe'', Key rid)
              [''type'' \<mapsto> Txt ''recipe'', ''RecipeId'' \<mapsto> Key rid], snd st)"
    using assms by (simp add: consistent_def)
  then show ?thesis
    unfolding Pair process_recipe_links
    by (rule consistent_links) (simp add: recipe_items_relation)
qed

lemma process_recipe_snd: "snd (process_recipe U st r) = snd st @ recipe_triples U r"
  by (cases r) (simp add: process_recipe_links links_snd recipe_triples_def)

lemma foldl_process_recipe_snd:
  "snd (foldl (process_recipe U) st rs) = snd st @ concat (map (recipe_triples U) rs)"
  by (induction rs arbitrary: st) (simp_all add: process_recipe_snd)

lemma consistent_foldl: "consistent st \<Longrightarrow> consistent (foldl (process_recipe U) st rs)"
  by (induction rs arbitrary: st) (simp_all add: consistent_process_recipe)

lemma triples_eq: "snd (create_graph_and_triples U rs) = concat (map (recipe_triples U) rs)"
  by (simp add: create_graph_and_triples_def foldl_process_recipe_snd)

lemma consistent_create: "consistent (create_graph_and_triples U rs)"
  unfolding create_graph_and_triples_def
  by (rule consistent_foldl) (simp add: consistent_def DiGraph_def)

section \<open>Properties of the graph builder\<close>

lemma edges_iff_triples:
  "edges (fst (create_graph_and_triples U rs)) (h, t) = Some r
   \<longleftrightarrow> (h, r, t) \<in> set (snd (create_graph_and_triples U rs))"
  using consistent_create [of U rs] unfolding consistent_def by blast

lemma triples_functional:
  "(h, r, t) \<in> set (snd (create_graph_and_triples U rs)) \<Longrightarrow> r = relation_for t"
  using consistent_create [of U rs] unfolding consistent_def by blast

lemma dom_edges_image:
  "dom (edges (fst (create_graph_and_triples U rs)))
   = (\<lambda>x. (fst x, snd (snd x))) ` set (snd (create_graph_and_triples U rs))"
proof (intro set_eqI iffI)
  fix e assume "e \<in> dom (edges (fst (create_graph_and_triples U rs)))"
  then obtain r where "edges (fst (create_graph_and_triples U rs)) (fst e, snd e) = Some r"
    by auto
  then have "(fst e, r, snd e) \<in> set (snd (create_graph_and_triples U rs))"
    using edges_iff_triples [of U rs "fst e" "snd e" r] by blast
  then show "e \<in> (\<lambda>x. (fst x, snd (snd x))) ` set (snd (create_graph_and_triples U rs))"
    by force
next
  fix e assume "e \<in> (\<lambda>x. (fst x, snd (snd x))) ` set (snd (create_graph_and_triples U rs))"
  then obtain h r t where "(h, r, t) \<in> set (snd (create_graph_and_triples U rs))" "e = (h, t)"
    by auto
  then show "e \<in> dom (edges (fst (create_graph_and_triples U rs)))"
    using edges_iff_triples [of U rs h t r] by auto
qed

lemma inj_on_triples:
  "inj_on (\<lambda>x. (fst x, snd (snd x))) (set (snd (create_graph_and_triples U rs)))"
proof (rule inj_onI)
  fix x y :: "'a triple"
  assume x: "x \<in> set (snd (create_graph_and_triples U rs))"
    and y: "y \<in> set (snd (create_graph_and_triples U rs))"
    and eq: "(fst x, snd (snd x)) = (fst y, snd (snd y))"
  obtain h r t where xx: "x = (h, r, t)" by (cases x)
  obtain h' r' t' where yy: "y = (h', r', t')" by (cases y)
  from x xx have "r = relation_for t" using triples_functional by blast
  moreover from y yy have "r' = relation_for t'" using triples_functional by blast
  ultimately show "x = y" using eq xx yy by simp
qed

text \<open>
  C4, amended: a triple \<open>(h, r, t)\<close> is in the list exactly when the graph has the edge
  from \<open>h\<close> to \<open>t\<close> with relation \<open>r\<close>, so the distinct triples and the edges correspond
  one to one; and when no triple is repeated in the list, the list has as many entries as
  the graph has edges.
\<close>

theorem triples_match_edges:
  "(\<forall>h r t. edges (fst (create_graph_and_triples U recipes)) (h, t) = Some r
       \<longleftrightarrow> (h, r, t) \<in> set (snd (create_graph_and_triples U recipes)))
   \<and> (distinct (snd (create_graph_and_triples U recipes)) \<longrightarrow>
        length (snd (create_graph_and_triples U recipes))
        = card (dom (edges (fst (create_graph_and_triples U recipes)))))"
proof (intro conjI allI impI)
  fix h r t
  show "edges (fst (create_graph_and_triples U recipes)) (h, t) = Some r
       \<longleftrightarrow> (h, r, t) \<in> set (snd (create_graph_and_triples U recipes))"
    by (rule edges_iff_triples)
next
  assume d: "distinct (snd (create_graph_and_triples U recipes))"
  have "card (dom (edges (fst (create_graph_and_triples U recipes))))
        = card (set (snd (create_graph_and_triples U recipes)))"
    unfolding dom_edges_image by (rule card_image) (rule inj_on_triples)
  also have "\<dots> = length (snd (create_graph_and_triples U recipes))"
    using d by (rule distinct_card)
  finally show "length (snd (create_graph_and_triples U recipes))
        = card (dom (edges (fst (create_graph_and_triples U recipes))))" by simp
qed

lemmas builder_defs =
  create_graph_and_triples_def process_recipe_def process_single_def process_healthy_def
  process_list_def process_ingredients_def link_def add_edge_def add_node_def ensure_node_def
  has_node_def DiGraph_def attribute_mappings_def list_attributes_def usable_def ascii_def
  UNKNOWN_PLACEHOLDER_def split_and_clean_def strip_def is_space_def lower_def lower_char_def
  ingredient_relation_def ingredient_node_type_def ingredient_delimiter_def Let_def

text \<open>
  C4, as stated: every edge yields exactly one triple. A record that names an ingredient
  twice yields two triples and a single edge.
\<close>

theorem triples_match_edges_counterexample:
  "length (snd (create_graph_and_triples ascii
      [(1::nat, [''BestUsdaIngredientName'' \<mapsto> Text ''salt;salt''])])) = 2
   \<and> dom (edges (fst (create_graph_and_triples ascii
      [(1::nat, [''BestUsdaIngredientName'' \<mapsto> Text ''salt;salt''])])))
     = {((''recipe'', Key 1), (''ingredient'', Txt ''salt''))}"
  by (simp add: builder_defs)

theorem triples_match_edges_witness:
  "distinct (snd (create_graph_and_triples ascii
      [(1::nat, [''BestUsdaIngredientName'' \<mapsto> Text ''Salt;Tomato'',
                 ''Cooking_Method'' \<mapsto> Text ''Baked''])]))
   \<and> card (dom (edges (fst (create_graph_and_triples ascii
      [(1::nat, [''BestUsdaIngredientName'' \<mapsto> Text ''Salt;Tomato'',
                 ''Cooking_Method'' \<mapsto> Text ''Baked''])])))) = 3
   \<and> edges (fst (create_graph_and_triples ascii
      [(1::nat, [''BestUsdaIngredientName'' \<mapsto> Text ''Salt;Tomato'',
                 ''Cooking_Method'' \<mapsto> Text ''Baked''])]))
        ((''recipe'', Key 1), (''ingredient'', Txt ''tomato'')) = Some ''containsIngredient''"
proof -
  let ?rs = "[(1::nat, [''BestUsdaIngredientName'' \<mapsto> Text ''Salt;Tomato'',
                 ''Cooking_Method'' \<mapsto> Text ''Baked''])]"
  have ts: "snd (create_graph_and_triples ascii ?rs) =
     [((''recipe'', Key 1), ''usesCookingMethod'', (''cooking_method'', Txt ''Baked'')),
      ((''recipe'', Key 1), ''containsIngredient'', (''ingredient'', Txt ''salt'')),
      ((''recipe'', Key 1), ''containsIngredient'', (''ingredient'', Txt ''tomato''))]"
    by (simp add: builder_defs)
  have d: "distinct (snd (create_graph_and_triples ascii ?rs))"
    unfolding ts by simp
  from triples_match_edges [of ascii ?rs] d
  have "length (snd (create_graph_and_triples ascii ?rs))
        = card (dom (edges (fst (create_graph_and_triples ascii ?rs))))"
    and "edges (fst (create_graph_and_triples ascii ?rs))
           ((''recipe'', Key 1), (''ingredient'', Txt ''tomato'')) = Some ''containsIngredient''
         \<longleftrightarrow> ((''recipe'', Key 1), ''containsIngredient'', (''ingredient'', Txt ''tomato''))
              \<in> set (snd (create_graph_and_triples ascii ?rs))"
    by blast+
  then show ?thesis using d unfolding ts by simp
qed

lemma triple_of_record:
  assumes "distinct (map fst rs)" and "(rid, d) \<in> set rs"
  shows "((''recipe'', Key rid), r, t) \<in> set (snd (create_graph_and_triples U rs))
         \<longleftrightarrow> (\<exists>ty lab. (r, t, ty, lab) \<in> set (recipe_items U d))"
proof
  assume "((''recipe'', Key rid), r, t) \<in> set (snd (create_graph_and_triples U rs))"
  then obtain k d' where kd: "(k, d') \<in> set rs"
    and "((''recipe'', Key rid), r, t) \<in> set (recipe_triples U (k, d'))"
    by (auto simp: triples_eq)
  then have "k = rid" and it: "\<exists>ty lab. (r, t, ty, lab) \<in> set (recipe_items U d')"
    by (auto simp: recipe_triples_def)
  with kd assms have "d' = d"
    by (metis eq_key_imp_eq_value)
  with it show "\<exists>ty lab. (r, t, ty, lab) \<in> set (recipe_items U d)" by simp
next
  assume "\<exists>ty lab. (r, t, ty, lab) \<in> set (recipe_items U d)"
  then have "((''recipe'', Key rid), r, t) \<in> set (recipe_triples U (rid, d))"
    by (force simp: recipe_triples_def)
  with assms(2) show "((''recipe'', Key rid), r, t) \<in> set (snd (create_graph_and_triples U rs))"
    by (auto simp: triples_eq)
qed

lemma single_item_usable:
  assumes "(col, rel, ty) \<in> set attribute_mappings"
    and "(r, (ty, v), ty', lab) \<in> set (recipe_items U d)"
  shows "usable U (d col)"
  using assms
  by (auto simp: recipe_items_def single_items_def attribute_mappings_def healthy_items_def
      list_items_def list_attributes_def ingredient_items_def split: option.splits if_splits)

lemma placeholder_not_usable:
  "c = Text UNKNOWN_PLACEHOLDER \<or> str_strip U (str_of c) = [] \<Longrightarrow> \<not> usable U (Some c)"
  by (auto simp: usable_def)

text \<open>
  C5: when a record's value in one of the four single-valued columns is the placeholder
  "unknown", or is blank once trimmed, the step for that column leaves the graph and the
  triples as they were, and the result has no triple and no edge from the record's recipe
  node to a node of that column's type.
\<close>

theorem placeholder_skipped:
  assumes "(col, rel, ty) \<in> set attribute_mappings"
    and "distinct (map fst recipes)" and "(rid, d) \<in> set recipes"
    and "d col = Some c"
    and "c = Text UNKNOWN_PLACEHOLDER \<or> str_strip U (str_of c) = []"
  shows "process_single U (''recipe'', Key rid) d st (col, rel, ty) = st
       \<and> (\<forall>r v. ((''recipe'', Key rid), r, (ty, v)) \<notin> set (snd (create_graph_and_triples U recipes)))
       \<and> (\<forall>v. edges (fst (create_graph_and_triples U recipes)) ((''recipe'', Key rid), (ty, v)) = None)"
proof -
  have nu: "\<not> usable U (d col)"
    using assms(4,5) placeholder_not_usable by simp
  have step: "process_single U (''recipe'', Key rid) d st (col, rel, ty) = st"
    using nu assms(4) by (simp add: process_single_def)
  have tr: "((''recipe'', Key rid), r, (ty, v)) \<notin> set (snd (create_graph_and_triples U recipes))"
    for r v
    using nu single_item_usable [OF assms(1)] triple_of_record [OF assms(2,3)] by blast
  have ed: "edges (fst (create_graph_and_triples U recipes)) ((''recipe'', Key rid), (ty, v)) = None"
    for v
  proof (cases "edges (fst (create_graph_and_triples U recipes)) ((''recipe'', Key rid), (ty, v))")
    case None
    then show ?thesis .
  next
    case (Some r)
    then show ?thesis using tr [of r v] by (simp add: edges_iff_triples)
  qed
  show ?thesis using step tr ed by blast
qed

theorem placeholder_skipped_witness:
  "process_single ascii (''recipe'', Key (7::nat))
     [''Cooking_Method'' \<mapsto> Text ''unknown'', ''cook_time'' \<mapsto> Text ''30 Mins'']
     (DiGraph, []) (''Cooking_Method'', ''usesCookingMethod'', ''cooking_method'') = (DiGraph, [])
   \<and> snd (create_graph_and_triples ascii
       [(7::nat, [''Cooking_Method'' \<mapsto> Text ''unknown'', ''cook_time'' \<mapsto> Text ''30 Mins''])])
     = [((''recipe'', Key 7), ''hasCookTime'', (''cook_time'', Txt ''30 Mins''))]
   \<and> edges (fst (create_graph_and_triples ascii
       [(7::nat, [''Cooking_Method'' \<mapsto> Text ''unknown'', ''cook_time'' \<mapsto> Text ''30 Mins''])]))
       ((''recipe'', Key 7), (''cooking_method'', Txt ''unknown'')) = None"
proof -
  let ?d = "[''Cooking_Method'' \<mapsto> Text ''unknown'', ''cook_time'' \<mapsto> Text ''30 Mins'']"
  have 1: "(''Cooking_Method'', ''usesCookingMethod'', ''cooking_method'') \<in> set attribute_mappings"
    by (simp add: attribute_mappings_def)
  have 2: "distinct (map fst [(7::nat, ?d)])" by simp
  have 3: "(7::nat, ?d) \<in> set [(7, ?d)]" by simp
  have 4: "?d ''Cooking_Method'' = Some (Text ''unknown'')" by simp
  have 5: "Text ''unknown'' = Text UNKNOWN_PLACEHOLDER \<or> str_strip ascii (str_of (Text ''unknown'')) = []"
    by (simp add: UNKNOWN_PLACEHOLDER_def)
  have ts: "snd (create_graph_and_triples ascii [(7::nat, ?d)])
     = [((''recipe'', Key 7), ''hasCookTime'', (''cook_time'', Txt ''30 Mins''))]"
    by (simp add: builder_defs)
  from placeholder_skipped [OF 1 2 3 4 5, of "(DiGraph, [])"] ts show ?thesis by blast
qed

section \<open>Ingredient nodes\<close>

lemma split_and_clean_nonempty: "e \<in> set (split_and_clean U s d) \<Longrightarrow> e \<noteq> []"
  by (auto simp: split_and_clean_def)

lemma tokens_Text:
  assumes "d col = Some (Text a)" and "usable U (Some (Text a))"
  shows "tokens U d col dl = split_and_clean U a dl"
proof -
  have "filter (\<lambda>e. e \<noteq> []) (split_and_clean U a dl) = split_and_clean U a dl"
    using split_and_clean_nonempty [of _ U a dl] by (simp add: filter_id_conv)
  with assms show ?thesis by (simp add: tokens_def)
qed

lemma ingredient_item_iff:
  "(r, n, ty, lab) \<in> set (recipe_items U d) \<and> fst n = ''ingredient''
   \<longleftrightarrow> (r, n, ty, lab) \<in> set (ingredient_items U d)"
  by (auto simp: recipe_items_def single_items_def attribute_mappings_def healthy_items_def
      list_items_def list_attributes_def ingredient_items_def split: option.splits if_splits)

lemma ingredient_edge_iff:
  assumes "distinct (map fst rs)" and "(rid, d) \<in> set rs" and "fst n = ''ingredient''"
  shows "edges (fst (create_graph_and_triples U rs)) ((''recipe'', Key rid), n) = Some r
         \<longleftrightarrow> r = ''containsIngredient''
             \<and> n \<in> (\<lambda>e. (''ingredient'', Txt (str_lower U e)))
                   ` set (tokens U d ''BestUsdaIngredientName'' CHR '';'')"
proof -
  have "edges (fst (create_graph_and_triples U rs)) ((''recipe'', Key rid), n) = Some r
        \<longleftrightarrow> (\<exists>ty lab. (r, n, ty, lab) \<in> set (recipe_items U d))"
    by (simp add: edges_iff_triples triple_of_record [OF assms(1,2)])
  also have "\<dots> \<longleftrightarrow> (\<exists>ty lab. (r, n, ty, lab) \<in> set (ingredient_items U d))"
    using ingredient_item_iff [of r n _ _ U d] assms(3) by blast
  also have "\<dots> \<longleftrightarrow> r = ''containsIngredient''
             \<and> n \<in> (\<lambda>e. (''ingredient'', Txt (str_lower U e)))
                   ` set (tokens U d ''BestUsdaIngredientName'' CHR '';'')"
    by (auto simp: ingredient_items_def ingredient_relation_def ingredient_delimiter_def)
  finally show ?thesis .
qed

text \<open>
  C6, amended: take two records of the mapping whose ingredient strings the builder does
  not skip (neither is empty, blank or exactly the placeholder "unknown") and which differ
  only in letter casing: their ingredient names, in order, are the same once lower-cased.
  Then the two recipe nodes have edges to the same ingredient nodes, and for every
  ingredient name of the string that node is the pair of "ingredient" and the lower-cased
  name. \<open>str_lower U\<close> is whatever \<open>str.lower\<close> computes.
\<close>

theorem ingredient_identity_case_insensitive:
  assumes "distinct (map fst recipes)"
    and "(r1, d1) \<in> set recipes" and "(r2, d2) \<in> set recipes"
    and "d1 ''BestUsdaIngredientName'' = Some (Text a)"
    and "d2 ''BestUsdaIngredientName'' = Some (Text b)"
    and "usable U (Some (Text a))" and "usable U (Some (Text b))"
    and "map (str_lower U) (split_and_clean U a ingredient_delimiter)
         = map (str_lower U) (split_and_clean U b ingredient_delimiter)"
  shows "(\<forall>n. fst n = ''ingredient'' \<longrightarrow>
            edges (fst (create_graph_and_triples U recipes)) ((''recipe'', Key r1), n)
            = edges (fst (create_graph_and_triples U recipes)) ((''recipe'', Key r2), n))
       \<and> (\<forall>i \<in> set (split_and_clean U a ingredient_delimiter).
            edges (fst (create_graph_and_triples U recipes))
              ((''recipe'', Key r1), (''ingredient'', Txt (str_lower U i)))
            = Some ''containsIngredient''
          \<and> edges (fst (create_graph_and_triples U recipes))
              ((''recipe'', Key r2), (''ingredient'', Txt (str_lower U i)))
            = Some ''containsIngredient'')"
proof -
  let ?G = "fst (create_graph_and_triples U recipes)"
  let ?N = "(\<lambda>l. (''ingredient'', Txt l) :: 'a node)
              ` set (map (str_lower U) (split_and_clean U a CHR '';''))"
  have t1: "tokens U d1 ''BestUsdaIngredientName'' CHR '';'' = split_and_clean U a CHR '';''"
    using assms(4,6) by (rule tokens_Text)
  have t2: "tokens U d2 ''BestUsdaIngredientName'' CHR '';'' = split_and_clean U b CHR '';''"
    using assms(5,7) by (rule tokens_Text)
  have same: "map (str_lower U) (split_and_clean U a CHR '';'')
              = map (str_lower U) (split_and_clean U b CHR '';'')"
    using assms(8) by (simp add: ingredient_delimiter_def)
  have n1: "(\<lambda>e. (''ingredient'', Txt (str_lower U e)) :: 'a node)
              ` set (tokens U d1 ''BestUsdaIngredientName'' CHR '';'') = ?N"
    unfolding t1 by (simp add: image_image)
  have "(\<lambda>e. (''ingredient'', Txt (str_lower U e)) :: 'a node)
              ` set (tokens U d2 ''BestUsdaIngredientName'' CHR '';'')
        = (\<lambda>l. (''ingredient'', Txt l))
            ` set (map (str_lower U) (split_and_clean U b CHR '';''))"
    unfolding t2 by (simp add: image_image)
  then have n2: "(\<lambda>e. (''ingredient'', Txt (str_lower U e)) :: 'a node)
              ` set (tokens U d2 ''BestUsdaIngredientName'' CHR '';'') = ?N"
    unfolding same .
  have e1: "edges ?G ((''recipe'', Key r1), n) = Some r
            \<longleftrightarrow> r = ''containsIngredient'' \<and> n \<in> ?N"
    if "fst n = ''ingredient''" for n r
    using ingredient_edge_iff [OF assms(1,2) that, of U r] unfolding n1 .
  have e2: "edges ?G ((''recipe'', Key r2), n) = Some r
            \<longleftrightarrow> r = ''containsIngredient'' \<and> n \<in> ?N"
    if "fst n = ''ingredient''" for n r
    using ingredient_edge_iff [OF assms(1,3) that, of U r] unfolding n2 .
  have A: "edges ?G ((''recipe'', Key r1), n) = edges ?G ((''recipe'', Key r2), n)"
    if "fst n = ''ingredient''" for n
  proof (cases "edges ?G ((''recipe'', Key r1), n)")
    case None
    then have "edges ?G ((''recipe'', Key r2), n) \<noteq> Some r" for r
      using e1 [OF that, of r] e2 [OF that, of r] by simp
    then show ?thesis using None by (metis not_Some_eq)
  next
    case (Some r)
    then show ?thesis using e1 [OF that, of r] e2 [OF that, of r] by simp
  qed
  have B: "edges ?G ((''recipe'', Key r1), (''ingredient'', Txt (str_lower U i)))
           = Some ''containsIngredient''
          \<and> edges ?G ((''recipe'', Key r2), (''ingredient'', Txt (str_lower U i)))
           = Some ''containsIngredient''"
    if "i \<in> set (split_and_clean U a ingredient_delimiter)" for i
  proof -
    have "(''ingredient'', Txt (str_lower U i)) \<in> ?N"
      using that by (simp add: ingredient_delimiter_def)
    then show ?thesis
      using e1 [of "(''ingredient'', Txt (str_lower U i))" "''containsIngredient''"]
            e2 [of "(''ingredient'', Txt (str_lower U i))" "''containsIngredient''"] by simp
  qed
  show ?thesis using A B by blast
qed

text \<open>
  C6, as stated: any two records whose ingredient strings differ only in casing reach the
  same ingredient node. "Unknown" and "unknown" differ only in casing; the first is an
  ingredient like any other, the second is the placeholder and is skipped.
\<close>

theorem ingredient_identity_case_insensitive_counterexample:
  "str_lower ascii ''Unknown'' = str_lower ascii ''unknown''
   \<and> edges (fst (create_graph_and_triples ascii
        [(1::nat, [''BestUsdaIngredientName'' \<mapsto> Text ''Unknown'']),
         (2, [''BestUsdaIngredientName'' \<mapsto> Text ''unknown''])]))
        ((''recipe'', Key 1), (''ingredient'', Txt ''unknown'')) = Some ''containsIngredient''
   \<and> edges (fst (create_graph_and_triples ascii
        [(1::nat, [''BestUsdaIngredientName'' \<mapsto> Text ''Unknown'']),
         (2, [''BestUsdaIngredientName'' \<mapsto> Text ''unknown''])]))
        ((''recipe'', Key 2), (''ingredient'', Txt ''unknown'')) = None
   \<and> snd (create_graph_and_triples ascii
        [(1::nat, [''BestUsdaIngredientName'' \<mapsto> Text ''Unknown'']),
         (2, [''BestUsdaIngredientName'' \<mapsto> Text ''unknown''])])
     = [((''recipe'', Key 1), ''containsIngredient'', (''ingredient'', Txt ''unknown''))]"
  by (simp add: builder_defs)

theorem ingredient_identity_case_insensitive_witness:
  "str_lower ascii ''Tomato'' = str_lower ascii ''tomato''
   \<and> edges (fst (create_graph_and_triples ascii
        [(1::nat, [''BestUsdaIngredientName'' \<mapsto> Text ''Tomato;Salt'']),
         (2, [''BestUsdaIngredientName'' \<mapsto> Text ''tomato;SALT''])]))
        ((''recipe'', Key 1), (''ingredient'', Txt ''tomato'')) = Some ''containsIngredient''
   \<and> edges (fst (create_graph_and_triples ascii
        [(1::nat, [''BestUsdaIngredientName'' \<mapsto> Text ''Tomato;Salt'']),
         (2, [''BestUsdaIngredientName'' \<mapsto> Text ''tomato;SALT''])]))
        ((''recipe'', Key 2), (''ingredient'', Txt ''tomato'')) = Some ''containsIngredient''"
proof -
  let ?d1 = "[''BestUsdaIngredientName'' \<mapsto> Text ''Tomato;Salt'']"
  let ?d2 = "[''BestUsdaIngredientName'' \<mapsto> Text ''tomato;SALT'']"
  let ?rs = "[(1::nat, ?d1), (2, ?d2)]"
  have 1: "distinct (map fst ?rs)" by simp
  have 2: "(1, ?d1) \<in> set ?rs" by simp
  have 3: "(2, ?d2) \<in> set ?rs" by simp
  have 4: "?d1 ''BestUsdaIngredientName'' = Some (Text ''Tomato;Salt'')" by simp
  have 5: "?d2 ''BestUsdaIngredientName'' = Some (Text ''tomato;SALT'')" by simp
  have 6: "usable ascii (Some (Text ''Tomato;Salt''))"
    by (simp add: usable_def ascii_def UNKNOWN_PLACEHOLDER_def strip_def is_space_def)
  have 7: "usable ascii (Some (Text ''tomato;SALT''))"
    by (simp add: usable_def ascii_def UNKNOWN_PLACEHOLDER_def strip_def is_space_def)
  have sa: "split_and_clean ascii ''Tomato;Salt'' ingredient_delimiter = [''Tomato'', ''Salt'']"
    by (simp add: split_and_clean_def ascii_def strip_def is_space_def ingredient_delimiter_def)
  have sb: "split_and_clean ascii ''tomato;SALT'' ingredient_delimiter = [''tomato'', ''SALT'']"
    by (simp add: split_and_clean_def ascii_def strip_def is_space_def ingredient_delimiter_def)
  have l: "str_lower ascii ''Tomato'' = ''tomato''" "str_lower ascii ''tomato'' = ''tomato''"
    "str_lower ascii ''Salt'' = ''salt''" "str_lower ascii ''SALT'' = ''salt''"
    by (simp_all add: ascii_def lower_def lower_char_def)
  have 8: "map (str_lower ascii) (split_and_clean ascii ''Tomato;Salt'' ingredient_delimiter)
           = map (str_lower ascii) (split_and_clean ascii ''tomato;SALT'' ingredient_delimiter)"
    unfolding sa sb by (simp add: l)
  have i: "''Tomato'' \<in> set (split_and_clean ascii ''Tomato;Salt'' ingredient_delimiter)"
    unfolding sa by simp
  from ingredient_identity_case_insensitive [OF 1 2 3 4 5 6 7 8] i
  have "edges (fst (create_graph_and_triples ascii ?rs))
          ((''recipe'', Key 1), (''ingredient'', Txt (str_lower ascii ''Tomato'')))
        = Some ''containsIngredient''
        \<and> edges (fst (create_graph_and_triples ascii ?rs))
          ((''recipe'', Key 2), (''ingredient'', Txt (str_lower ascii ''Tomato'')))
        = Some ''containsIngredient''"
    by blast
  then show ?thesis unfolding l by simp
qed

section \<open>Properties of the ranking\<close>

lemma predict_all_foldl:
  "foldl (\<lambda>(all_preds, calls) c.
            (all_preds @ [score_criterion predict c], calls @ [(fst (snd c), fst c)]))
     (ps, cs) criteria
   = (ps @ map (score_criterion predict) criteria,
      cs @ map (\<lambda>c. (fst (snd c), fst c)) criteria)"
  by (induction criteria arbitrary: ps cs) simp_all

lemma predict_all_eq:
  "predict_all predict criteria
   = (map (score_criterion predict) criteria, map (\<lambda>c. (fst (snd c), fst c)) criteria)"
  by (simp add: predict_all_def predict_all_foldl)

lemma get_matching_recipes_Cons:
  "get_matching_recipes predict (c # cs) top_k flexible
   = (try_map parse_recipe_id
        (map fst (ranked flexible top_k (score_criterion predict c)
                    (map (score_criterion predict) cs))),
      map (\<lambda>c. (fst (snd c), fst c)) (c # cs))"
  by (simp add: get_matching_recipes_def predict_all_eq)

lemma sorted_ranked:
  "sorted (map (\<lambda>row. - snd row) (ranked flexible top_k first others))"
proof -
  let ?xs = "sort_key (\<lambda>row. - snd row)
               (filter (\<lambda>row. startswith (fst row) ''recipe_'') (merge_all flexible first others))"
  have s: "sorted (map (\<lambda>row. - snd row) ?xs)" by (rule sorted_sort_key)
  have "sorted (map (\<lambda>row. - snd row) (take n ?xs))" for n
    using s by (simp add: take_map [symmetric])
  then show ?thesis by (simp add: ranked_def head_def Let_def)
qed

lemma ranked_recipes:
  assumes "row \<in> set (ranked flexible top_k first others)"
  shows "startswith (fst row) ''recipe_''"
proof -
  let ?xs = "sort_key (\<lambda>row. - snd row)
               (filter (\<lambda>row. startswith (fst row) ''recipe_'') (merge_all flexible first others))"
  from assms obtain n where "row \<in> set (take n ?xs)"
    by (auto simp: ranked_def head_def Let_def split: if_splits)
  then have "row \<in> set ?xs" by (rule in_set_takeD)
  then show ?thesis by simp
qed

lemma length_ranked:
  "0 \<le> top_k \<Longrightarrow> length (ranked flexible top_k first others) \<le> nat top_k"
  by (simp add: ranked_def head_def Let_def)

text \<open>
  C7: with the single criterion \<open>("meal_type_dessert", "isForMealType", 1.0)\<close>, strict
  merging, a limit of two, and a model that answers this criterion with \<open>recipe_10\<close> at
  0.9, \<open>recipe_7\<close> at 0.5 and \<open>ingredient_sugar\<close> at 0.8: the min-max normalized scores
  are 1, 0 and 3/4, and they are the weighted scores; the frame the result is read from
  holds \<open>recipe_10\<close> at 1 and \<open>recipe_7\<close> at 0, the ingredient filtered out; the result is
  \<open>["10", "7"]\<close>, after one call to the model. The order and the cut are those of the
  ranking and not of the input: the same rows in another order rank the same, a limit of
  one keeps \<open>recipe_10\<close>, and for every input the ranked frame is in descending order of
  score, holds recipes only, and has at most as many rows as the limit.
\<close>

theorem get_matching_recipes_example:
  assumes "predict ''isForMealType'' ''meal_type_dessert''
           = [(''recipe_10'', 0.9), (''recipe_7'', 0.5), (''ingredient_sugar'', 0.8)]"
  shows "normalize_scores (predict ''isForMealType'' ''meal_type_dessert'')
         = [(''recipe_10'', 0.9, 1), (''recipe_7'', 0.5, 0), (''ingredient_sugar'', 0.8, 3 / 4)]
       \<and> score_criterion predict (''meal_type_dessert'', ''isForMealType'', 1)
         = [(''recipe_10'', 1), (''recipe_7'', 0), (''ingredient_sugar'', 3 / 4)]
       \<and> ranked False 2 (score_criterion predict (''meal_type_dessert'', ''isForMealType'', 1)) []
         = [(''recipe_10'', 1), (''recipe_7'', 0)]
       \<and> get_matching_recipes predict [(''meal_type_dessert'', ''isForMealType'', 1)] 2 False
         = (Inr [''10'', ''7''], [(''isForMealType'', ''meal_type_dessert'')])
       \<and> ranked False 2 [(''recipe_7'', 0), (''ingredient_sugar'', 3 / 4), (''recipe_10'', 1)] []
         = [(''recipe_10'', 1), (''recipe_7'', 0)]
       \<and> ranked False 1 (score_criterion predict (''meal_type_dessert'', ''isForMealType'', 1)) []
         = [(''recipe_10'', 1)]
       \<and> (\<forall>flexible top_k first others.
            sorted (map (\<lambda>row. - snd row) (ranked flexible top_k first others))
            \<and> (\<forall>row \<in> set (ranked flexible top_k first others).
                  startswith (fst row) ''recipe_'')
            \<and> (0 \<le> top_k \<longrightarrow> length (ranked flexible top_k first others) \<le> nat top_k))"
proof -
  let ?c = "(''meal_type_dessert'', ''isForMealType'', 1 :: real)"
  have ns: "normalize_scores (predict ''isForMealType'' ''meal_type_dessert'')
         = [(''recipe_10'', 0.9, 1), (''recipe_7'', 0.5, 0), (''ingredient_sugar'', 0.8, 3 / 4)]"
    by (simp add: assms normalize_scores_def handle_zeros_in_scale_def eps_def Let_def)
  have sc: "score_criterion predict ?c
            = [(''recipe_10'', 1), (''recipe_7'', 0), (''ingredient_sugar'', 3 / 4)]"
    by (simp add: score_criterion_def ns)
  have rk: "ranked False 2 [(''recipe_10'', 1), (''recipe_7'', 0), (''ingredient_sugar'', 3 / 4)] []
            = [(''recipe_10'', 1), (''recipe_7'', 0 :: real)]"
    by (simp add: ranked_def merge_all_def startswith_def head_def Let_def)
  have rk': "ranked False 2 [(''recipe_7'', 0), (''ingredient_sugar'', 3 / 4), (''recipe_10'', 1)] []
            = [(''recipe_10'', 1), (''recipe_7'', 0 :: real)]"
    by (simp add: ranked_def merge_all_def startswith_def head_def Let_def)
  have rk1: "ranked False 1 [(''recipe_10'', 1), (''recipe_7'', 0), (''ingredient_sugar'', 3 / 4)] []
            = [(''recipe_10'', 1 :: real)]"
    by (simp add: ranked_def merge_all_def startswith_def head_def Let_def)
  have pr: "try_map parse_recipe_id [''recipe_10'', ''recipe_7''] = Inr [''10'', ''7'']"
    by (simp add: parse_recipe_id_def startswith_def try_bind_def)
  have mf: "map fst (ranked False 2 (score_criterion predict ?c) [])
            = [''recipe_10'', ''recipe_7'']"
    unfolding sc rk by simp
  have gm: "get_matching_recipes predict [?c] 2 False
            = (Inr [''10'', ''7''], [(''isForMealType'', ''meal_type_dessert'')])"
    by (simp only: get_matching_recipes_Cons list.map mf pr fst_conv snd_conv)
  have gen: "sorted (map (\<lambda>row. - snd row) (ranked flexible top_k first others))
            \<and> (\<forall>row \<in> set (ranked flexible top_k first others).
                  startswith (fst row) ''recipe_'')
            \<and> (0 \<le> top_k \<longrightarrow> length (ranked flexible top_k first others) \<le> nat top_k)"
    for flexible top_k first others
    using sorted_ranked ranked_recipes length_ranked by blast
  show ?thesis
    using ns gm gen rk' unfolding sc rk rk1 by blast
qed

theorem get_matching_recipes_example_witness:
  "get_matching_recipes
     (\<lambda>relation tail. [(''recipe_10'', 0.9), (''recipe_7'', 0.5), (''ingredient_sugar'', 0.8)])
     [(''meal_type_dessert'', ''isForMealType'', 1)] 2 False
   = (Inr [''10'', ''7''], [(''isForMealType'', ''meal_type_dessert'')])
   \<and> score_criterion
       (\<lambda>relation tail. [(''recipe_10'', 0.9), (''recipe_7'', 0.5), (''ingredient_sugar'', 0.8)])
       (''meal_type_dessert'', ''isForMealType'', 1)
     = [(''recipe_10'', 1), (''recipe_7'', 0), (''ingredient_sugar'', 3 / 4)]"
proof -
  let ?p = "\<lambda>relation tail :: string.
              [(''recipe_10'', 0.9 :: real), (''recipe_7'', 0.5), (''ingredient_sugar'', 0.8)]"
  have "?p ''isForMealType'' ''meal_type_dessert''
        = [(''recipe_10'', 0.9), (''recipe_7'', 0.5), (''ingredient_sugar'', 0.8)]" by simp
  from get_matching_recipes_example [of ?p, OF this]
  show ?thesis by blast
qed

text \<open>
  C8: with no criteria the result is the empty list and the model is not called at all;
  with a limit of zero the result is the empty list whatever the criteria.
\<close>

theorem get_matching_recipes_empty:
  "get_matching_recipes predict [] top_k flexible = (Inr [], [])
   \<and> fst (get_matching_recipes predict criteria 0 flexible) = Inr []"
proof
  show "get_matching_recipes predict [] top_k flexible = (Inr [], [])"
    by (simp add: get_matching_recipes_def)
  show "fst (get_matching_recipes predict criteria 0 flexible) = Inr []"
  proof (cases criteria)
    case Nil
    then show ?thesis by (simp add: get_matching_recipes_def)
  next
    case (Cons c cs)
    then show ?thesis
      by (simp add: get_matching_recipes_Cons ranked_def head_def Let_def)
  qed
qed









section \<open>Properties of the canonicalizer\<close>

text \<open>
  C9, as stated: \<open>tuple_to_canonical\<close> never raises. The handler prints the input; on a
  console whose encoding is ASCII the \<open>print\<close> of a text with another byte raises, inside
  the handler, and the exception leaves the function.
\<close>

theorem tuple_to_canonical_fallback_counterexample:
  "tuple_to_canonical ascii_console_python [CHR 0xC3, CHR 0xA9]
   = (Inl (Exception ''codec cannot encode character''), [])"
  by (simp add: tuple_to_canonical_def tuple_to_canonical_try_def try_bind_def
      ascii_console_python_def example_python_def docstring_literal_def single_literal_def
      Let_def)

text \<open>
  C9, amended: when the input evaluates to a value whose items 0 and 1 can be read and
  formatted, \<open>tuple_to_canonical\<close> returns the two texts joined by an underscore and prints
  nothing. When any step of that fails (evaluating the literal, reading item 0, formatting
  it, reading item 1, formatting it) and the line reporting the failure is printed, it
  returns the input as it was, having printed that one line; when printing that line
  raises, the exception leaves the function. With a \<open>print\<close> that does not raise it returns
  a string for every input.
\<close>

theorem tuple_to_canonical_fallback:
  "(literal_eval py s = Inr t \<and> getitem py t 0 = Inr ty \<and> format py ty = Inr a
      \<and> getitem py t 1 = Inr v \<and> format py v = Inr b
    \<longrightarrow> tuple_to_canonical py s = (Inr (a @ ''_'' @ b), []))
   \<and> (print py (''Error converting tuple: '' @ msg @ '' => '' @ s) = Inr ()
      \<and> (literal_eval py s = Inl (Exception msg)
         \<or> literal_eval py s = Inr t
            \<and> (getitem py t 0 = Inl (Exception msg)
               \<or> getitem py t 0 = Inr ty
                  \<and> (format py ty = Inl (Exception msg)
                     \<or> format py ty = Inr a
                        \<and> (getitem py t 1 = Inl (Exception msg)
                           \<or> getitem py t 1 = Inr v \<and> format py v = Inl (Exception msg)))))
    \<longrightarrow> tuple_to_canonical py s
        = (Inr s, [''Error converting tuple: '' @ msg @ '' => '' @ s]))
   \<and> (tuple_to_canonical_try py s = Inl (Exception msg)
      \<and> print py (''Error converting tuple: '' @ msg @ '' => '' @ s) = Inl e
    \<longrightarrow> tuple_to_canonical py s = (Inl e, []))
   \<and> ((\<forall>line. print py line = Inr ()) \<longrightarrow> (\<exists>r. fst (tuple_to_canonical py s) = Inr r))"
proof (intro conjI impI)
  assume "literal_eval py s = Inr t \<and> getitem py t 0 = Inr ty \<and> format py ty = Inr a
      \<and> getitem py t 1 = Inr v \<and> format py v = Inr b"
  then show "tuple_to_canonical py s = (Inr (a @ ''_'' @ b), [])"
    by (simp add: tuple_to_canonical_def tuple_to_canonical_try_def try_bind_def)
next
  assume h: "print py (''Error converting tuple: '' @ msg @ '' => '' @ s) = Inr ()
      \<and> (literal_eval py s = Inl (Exception msg)
         \<or> literal_eval py s = Inr t
            \<and> (getitem py t 0 = Inl (Exception msg)
               \<or> getitem py t 0 = Inr ty
                  \<and> (format py ty = Inl (Exception msg)
                     \<or> format py ty = Inr a
                        \<and> (getitem py t 1 = Inl (Exception msg)
                           \<or> getitem py t 1 = Inr v \<and> format py v = Inl (Exception msg)))))"
  then have "tuple_to_canonical_try py s = Inl (Exception msg)"
    by (auto simp: tuple_to_canonical_try_def try_bind_def)
  with h show "tuple_to_canonical py s
        = (Inr s, [''Error converting tuple: '' @ msg @ '' => '' @ s])"
    by (simp add: tuple_to_canonical_def Let_def)
next
  assume "tuple_to_canonical_try py s = Inl (Exception msg)
      \<and> print py (''Error converting tuple: '' @ msg @ '' => '' @ s) = Inl e"
  then show "tuple_to_canonical py s = (Inl e, [])"
    by (simp add: tuple_to_canonical_def Let_def)
next
  assume p: "\<forall>line. print py line = Inr ()"
  show "\<exists>r. fst (tuple_to_canonical py s) = Inr r"
  proof (cases "tuple_to_canonical_try py s")
    case (Inr r)
    then show ?thesis by (simp add: tuple_to_canonical_def)
  next
    case (Inl e)
    obtain msg' where "e = Exception msg'" by (cases e)
    with Inl p show ?thesis by (simp add: tuple_to_canonical_def Let_def)
  qed
qed

theorem tuple_to_canonical_fallback_witness:
  "tuple_to_canonical example_python docstring_literal = (Inr ''meal_type_dinner'', [])
   \<and> tuple_to_canonical example_python ''meal_type''
     = (Inr ''meal_type'', [''Error converting tuple: invalid syntax => meal_type''])
   \<and> tuple_to_canonical example_python single_literal
     = (Inr single_literal,
        [''Error converting tuple: tuple index out of range => '' @ single_literal])
   \<and> tuple_to_canonical ascii_console_python [CHR 0xC3, CHR 0xB1]
     = (Inl (Exception ''codec cannot encode character''), [])
   \<and> (\<exists>r. fst (tuple_to_canonical example_python [CHR 0xC3, CHR 0xB1]) = Inr r)"
proof -
  let ?t = "PTuple [PStr ''meal_type'', PStr ''dinner'']"
  let ?u = "PTuple [PStr ''meal_type'']"
  have 1: "literal_eval example_python docstring_literal = Inr ?t
           \<and> getitem example_python ?t 0 = Inr (PStr ''meal_type'')
           \<and> format example_python (PStr ''meal_type'') = Inr ''meal_type''
           \<and> getitem example_python ?t 1 = Inr (PStr ''dinner'')
           \<and> format example_python (PStr ''dinner'') = Inr ''dinner''"
    by (simp add: example_python_def)
  have p: "print example_python line = Inr ()" for line
    by (simp add: example_python_def)
  have 2: "literal_eval example_python ''meal_type'' = Inl (Exception ''invalid syntax'')"
    by (simp add: example_python_def docstring_literal_def single_literal_def)
  have 3: "literal_eval example_python single_literal = Inr ?u
           \<and> getitem example_python ?u 0 = Inr (PStr ''meal_type'')
           \<and> format example_python (PStr ''meal_type'') = Inr ''meal_type''
           \<and> getitem example_python ?u 1 = Inl (Exception ''tuple index out of range'')"
    by (simp add: example_python_def docstring_literal_def single_literal_def)
  from tuple_to_canonical_fallback
         [of example_python docstring_literal ?t "PStr ''meal_type''" "''meal_type''"
             "PStr ''dinner''" "''dinner''"] 1
  have a: "tuple_to_canonical example_python docstring_literal
           = (Inr (''meal_type'' @ ''_'' @ ''dinner''), [])" by blast
  from tuple_to_canonical_fallback
         [of example_python "''meal_type''" _ _ _ _ _ "''invalid syntax''"] 2 p
  have b: "tuple_to_canonical example_python ''meal_type''
           = (Inr ''meal_type'',
              [''Error converting tuple: '' @ ''invalid syntax'' @ '' => '' @ ''meal_type''])"
    by blast
  from tuple_to_canonical_fallback
         [of example_python single_literal ?u "PStr ''meal_type''" "''meal_type''" _ _
             "''tuple index out of range''"] 3 p
  have c: "tuple_to_canonical example_python single_literal
           = (Inr single_literal,
              [''Error converting tuple: '' @ ''tuple index out of range'' @ '' => ''
               @ single_literal])"
    by blast
  have 4: "tuple_to_canonical_try ascii_console_python [CHR 0xC3, CHR 0xB1]
             = Inl (Exception ''invalid syntax'')
           \<and> print ascii_console_python
               (''Error converting tuple: '' @ ''invalid syntax'' @ '' => '' @ [CHR 0xC3, CHR 0xB1])
             = Inl (Exception ''codec cannot encode character'')"
    by (simp add: tuple_to_canonical_try_def try_bind_def ascii_console_python_def
        example_python_def docstring_literal_def single_literal_def)
  from tuple_to_canonical_fallback
         [of ascii_console_python "[CHR 0xC3, CHR 0xB1]" _ _ _ _ _ "''invalid syntax''"
             "Exception ''codec cannot encode character''"] 4
  have d: "tuple_to_canonical ascii_console_python [CHR 0xC3, CHR 0xB1]
           = (Inl (Exception ''codec cannot encode character''), [])"
    by blast
  from tuple_to_canonical_fallback [of example_python "[CHR 0xC3, CHR 0xB1]"] p
  have e: "\<exists>r. fst (tuple_to_canonical example_python [CHR 0xC3, CHR 0xB1]) = Inr r"
    by blast
  show ?thesis using a b c d e by simp
qed

section \<open>Properties of the criteria translator\<close>

lemma split_on_single: "d \<notin> set s \<Longrightarrow> split_on d s = [s]"
  by (induction s) auto

lemma usable_Text: "usable U (Some (Text v)) \<Longrightarrow> v \<noteq> [] \<and> str_strip U v \<noteq> []"
  by (simp add: usable_def)

lemma tokens_single:
  assumes "usable U (Some (Text v))" and "dl \<notin> set v" and "d col = Some (Text v)"
  shows "tokens U d col dl = [str_strip U v]"
  using assms usable_Text [OF assms(1)]
  by (simp add: tokens_def split_and_clean_def split_on_single)

lemma single_record: "snd (create_graph_and_triples U [r]) = recipe_triples U r"
  by (simp add: triples_eq)

lemmas pairs_defs =
  single_record recipe_triples_def recipe_items_def single_items_def attribute_mappings_def
  healthy_items_def list_items_def list_attributes_def ingredient_items_def
  ingredient_relation_def ingredient_node_type_def ingredient_delimiter_def
  builder_pairs_def canonical_def criteria_pairs_def map_user_input_to_criteria_def

lemma tokens_absent [simp]: "d col = None \<Longrightarrow> tokens U d col dl = []"
  by (simp add: tokens_def)

lemma pairs_servings_bin:
  assumes "usable U (Some (Text v))"
  shows "builder_pairs show (snd (create_graph_and_triples U [(rid, [''servings_bin'' \<mapsto> Text v])]))
         = criteria_pairs (map_user_input_to_criteria U None (Some v) [] [] None [] None [] weights)"
  using assms usable_Text [OF assms] by (simp add: pairs_defs)

lemma pairs_cook_time:
  assumes "usable U (Some (Text v))"
  shows "builder_pairs show (snd (create_graph_and_triples U [(rid, [''cook_time'' \<mapsto> Text v])]))
         = criteria_pairs (map_user_input_to_criteria U None None [] [] (Some v) [] None [] weights)"
  using assms usable_Text [OF assms] by (simp add: pairs_defs)

lemma pairs_cuisine_region:
  assumes "usable U (Some (Text v))"
  shows "builder_pairs show (snd (create_graph_and_triples U [(rid, [''CuisineRegion'' \<mapsto> Text v])]))
         = criteria_pairs (map_user_input_to_criteria U None None [] [] None [] (Some v) [] weights)"
  using assms usable_Text [OF assms] by (simp add: pairs_defs)

lemma pairs_cooking_method:
  assumes "usable U (Some (Text v))"
  shows "builder_pairs show (snd (create_graph_and_triples U [(rid, [''Cooking_Method'' \<mapsto> Text v])]))
         = criteria_pairs (map_user_input_to_criteria U (Some v) None [] [] None [] None [] weights)
         \<longleftrightarrow> str_lower U (str_strip U v) = str_strip U v"
  using assms usable_Text [OF assms] by (auto simp: pairs_defs)

lemma pairs_diet_types:
  assumes "usable U (Some (Text v))" and "CHR '','' \<notin> set v"
  shows "builder_pairs show (snd (create_graph_and_triples U [(rid, [''Diet_Types'' \<mapsto> Text v])]))
         = criteria_pairs (map_user_input_to_criteria U None None [v] [] None [] None [] weights)"
  using tokens_single [OF assms, of "[''Diet_Types'' \<mapsto> Text v]" "''Diet_Types''"]
  by (simp add: pairs_defs)

lemma pairs_meal_type:
  assumes "usable U (Some (Text v))" and "CHR '','' \<notin> set v"
  shows "builder_pairs show (snd (create_graph_and_triples U [(rid, [''meal_type'' \<mapsto> Text v])]))
         = criteria_pairs (map_user_input_to_criteria U None None [] [v] None [] None [] weights)"
  using tokens_single [OF assms, of "[''meal_type'' \<mapsto> Text v]" "''meal_type''"]
  by (simp add: pairs_defs)

lemma pairs_health_types:
  assumes "usable U (Some (Text v))" and "CHR '','' \<notin> set v"
  shows "builder_pairs show (snd (create_graph_and_triples U [(rid, [''Healthy_Type'' \<mapsto> Text v])]))
         = criteria_pairs (map_user_input_to_criteria U None None [] [] None [v] None [] weights)"
  using tokens_single [OF assms, of "[''Healthy_Type'' \<mapsto> Text v]" "''Healthy_Type''"]
  by (simp add: pairs_defs)

lemma pairs_ingredients:
  assumes "usable U (Some (Text v))" and "CHR '';'' \<notin> set v"
  shows "builder_pairs show
           (snd (create_graph_and_triples U [(rid, [''BestUsdaIngredientName'' \<mapsto> Text v])]))
         = criteria_pairs (map_user_input_to_criteria U None None [] [] None [] None [v] weights)
         \<longleftrightarrow> str_lower U (str_strip U v) = str_strip U v"
  using tokens_single [OF assms, of "[''BestUsdaIngredientName'' \<mapsto> Text v]"
      "''BestUsdaIngredientName''"]
  by (auto simp: pairs_defs)

text \<open>
  C3, as stated: for every attribute value the translator's tail is the canonical string
  of the builder's node for the same raw value, in particular for every ingredient. For
  the ingredient "Tomato" the builder's node is \<open>ingredient_tomato\<close> and the translator's
  tail is \<open>ingredient_Tomato\<close>; for the cooking method "Baked" the builder's node is
  \<open>cooking_method_Baked\<close> and the translator's tail is \<open>cooking_method_baked\<close>.
\<close>

theorem translator_mirrors_builder_counterexample:
  "builder_pairs (\<lambda>k :: nat. ''1'')
     (snd (create_graph_and_triples ascii [(1, [''BestUsdaIngredientName'' \<mapsto> Text ''Tomato''])]))
   = [(''ingredient_tomato'', ''containsIngredient'')]
   \<and> criteria_pairs (map_user_input_to_criteria ascii None None [] [] None [] None [''Tomato'']
        Map.empty)
     = [(''ingredient_Tomato'', ''containsIngredient'')]
   \<and> builder_pairs (\<lambda>k :: nat. ''1'')
       (snd (create_graph_and_triples ascii [(1, [''Cooking_Method'' \<mapsto> Text ''Baked''])]))
     = [(''cooking_method_Baked'', ''usesCookingMethod'')]
   \<and> criteria_pairs (map_user_input_to_criteria ascii (Some ''Baked'') None [] [] None [] None []
        Map.empty)
     = [(''cooking_method_baked'', ''usesCookingMethod'')]"
  by (simp add: pairs_defs tokens_def usable_def UNKNOWN_PLACEHOLDER_def split_and_clean_def
      ascii_def strip_def is_space_def lower_def lower_char_def)

text \<open>
  C3, amended: whatever \<open>str.strip\<close> and \<open>str.lower\<close> compute, for a raw value the
  builder does not skip, the tail and the relation the translator produces are the
  canonical string of the node and the relation of the triple the builder produces for
  the same raw value, in the categories servings bin, cook time and cuisine region, and,
  for a value without a comma, diet type, meal type and health type. For the cooking
  method, and for an ingredient without a semicolon, they are the same when lower-casing
  leaves the trimmed value as it is.
\<close>

theorem translator_mirrors_builder:
  assumes "usable U (Some (Text v))"
  shows "builder_pairs show (snd (create_graph_and_triples U [(rid, [''servings_bin'' \<mapsto> Text v])]))
         = criteria_pairs (map_user_input_to_criteria U None (Some v) [] [] None [] None [] weights)
       \<and> builder_pairs show (snd (create_graph_and_triples U [(rid, [''cook_time'' \<mapsto> Text v])]))
         = criteria_pairs (map_user_input_to_criteria U None None [] [] (Some v) [] None [] weights)
       \<and> builder_pairs show (snd (create_graph_and_triples U [(rid, [''CuisineRegion'' \<mapsto> Text v])]))
         = criteria_pairs (map_user_input_to_criteria U None None [] [] None [] (Some v) [] weights)
       \<and> (CHR '','' \<notin> set v \<longrightarrow>
            builder_pairs show (snd (create_graph_and_triples U [(rid, [''Diet_Types'' \<mapsto> Text v])]))
            = criteria_pairs (map_user_input_to_criteria U None None [v] [] None [] None [] weights)
          \<and> builder_pairs show (snd (create_graph_and_triples U [(rid, [''meal_type'' \<mapsto> Text v])]))
            = criteria_pairs (map_user_input_to_criteria U None None [] [v] None [] None [] weights)
          \<and> builder_pairs show
              (snd (create_graph_and_triples U [(rid, [''Healthy_Type'' \<mapsto> Text v])]))
            = criteria_pairs (map_user_input_to_criteria U None None [] [] None [v] None [] weights))
       \<and> (str_lower U (str_strip U v) = str_strip U v \<longrightarrow>
            builder_pairs show
              (snd (create_graph_and_triples U [(rid, [''Cooking_Method'' \<mapsto> Text v])]))
            = criteria_pairs
                (map_user_input_to_criteria U (Some v) None [] [] None [] None [] weights)
          \<and> (CHR '';'' \<notin> set v \<longrightarrow>
               builder_pairs show
                 (snd (create_graph_and_triples U
                    [(rid, [''BestUsdaIngredientName'' \<mapsto> Text v])]))
               = criteria_pairs
                   (map_user_input_to_criteria U None None [] [] None [] None [v] weights)))"
proof (intro conjI impI)
  show "builder_pairs show (snd (create_graph_and_triples U [(rid, [''servings_bin'' \<mapsto> Text v])]))
        = criteria_pairs (map_user_input_to_criteria U None (Some v) [] [] None [] None [] weights)"
    by (rule pairs_servings_bin [OF assms])
  show "builder_pairs show (snd (create_graph_and_triples U [(rid, [''cook_time'' \<mapsto> Text v])]))
        = criteria_pairs (map_user_input_to_criteria U None None [] [] (Some v) [] None [] weights)"
    by (rule pairs_cook_time [OF assms])
  show "builder_pairs show (snd (create_graph_and_triples U [(rid, [''CuisineRegion'' \<mapsto> Text v])]))
        = criteria_pairs (map_user_input_to_criteria U None None [] [] None [] (Some v) [] weights)"
    by (rule pairs_cuisine_region [OF assms])
next
  assume c: "CHR '','' \<notin> set v"
  show "builder_pairs show (snd (create_graph_and_triples U [(rid, [''Diet_Types'' \<mapsto> Text v])]))
        = criteria_pairs (map_user_input_to_criteria U None None [v] [] None [] None [] weights)"
    by (rule pairs_diet_types [OF assms c])
  show "builder_pairs show (snd (create_graph_and_triples U [(rid, [''meal_type'' \<mapsto> Text v])]))
        = criteria_pairs (map_user_input_to_criteria U None None [] [v] None [] None [] weights)"
    by (rule pairs_meal_type [OF assms c])
  show "builder_pairs show (snd (create_graph_and_triples U [(rid, [''Healthy_Type'' \<mapsto> Text v])]))
        = criteria_pairs (map_user_input_to_criteria U None None [] [] None [v] None [] weights)"
    by (rule pairs_health_types [OF assms c])
next
  assume l: "str_lower U (str_strip U v) = str_strip U v"
  show "builder_pairs show
          (snd (create_graph_and_triples U [(rid, [''Cooking_Method'' \<mapsto> Text v])]))
        = criteria_pairs
            (map_user_input_to_criteria U (Some v) None [] [] None [] None [] weights)"
    using pairs_cooking_method [OF assms, of "show" rid weights] l by (rule iffD2)
next
  assume l: "str_lower U (str_strip U v) = str_strip U v" and c: "CHR '';'' \<notin> set v"
  show "builder_pairs show
          (snd (create_graph_and_triples U [(rid, [''BestUsdaIngredientName'' \<mapsto> Text v])]))
        = criteria_pairs
            (map_user_input_to_criteria U None None [] [] None [] None [v] weights)"
    using pairs_ingredients [OF assms c, of "show" rid weights] l by (rule iffD2)
qed

theorem translator_mirrors_builder_witness:
  "usable ascii (Some (Text '' low_fat ''))
   \<and> builder_pairs (\<lambda>k :: nat. ''1'')
       (snd (create_graph_and_triples ascii [(1, [''Healthy_Type'' \<mapsto> Text '' low_fat ''])]))
     = [(''health_attribute_low_fat'', ''HasFatLevel'')]
   \<and> builder_pairs (\<lambda>k :: nat. ''1'')
       (snd (create_graph_and_triples ascii [(1, [''Cooking_Method'' \<mapsto> Text '' low_fat ''])]))
     = [(''cooking_method_low_fat'', ''usesCookingMethod'')]
   \<and> builder_pairs (\<lambda>k :: nat. ''1'')
       (snd (create_graph_and_triples ascii [(1, [''BestUsdaIngredientName'' \<mapsto> Text '' low_fat ''])]))
     = [(''ingredient_low_fat'', ''containsIngredient'')]
   \<and> builder_pairs (\<lambda>k :: nat. ''1'')
       (snd (create_graph_and_triples ascii [(1, [''servings_bin'' \<mapsto> Text '' low_fat ''])]))
     = [(''servings_bin_low_fat'', ''hasServingsBin'')]"
proof -
  let ?v = "'' low_fat ''"
  have u: "usable ascii (Some (Text ?v))"
    by (simp add: usable_def UNKNOWN_PLACEHOLDER_def ascii_def strip_def is_space_def)
  have c: "CHR '','' \<notin> set ?v" "CHR '';'' \<notin> set ?v" by simp_all
  have st: "str_strip ascii ?v = ''low_fat''" by (simp add: ascii_def strip_def is_space_def)
  have l: "str_lower ascii (str_strip ascii ?v) = str_strip ascii ?v"
    unfolding st by (simp add: ascii_def lower_def lower_char_def)
  have h: "criteria_pairs (map_user_input_to_criteria ascii None None [] [] None [?v] None [] Map.empty)
           = [(''health_attribute_low_fat'', ''HasFatLevel'')]"
    by (simp add: criteria_pairs_def map_user_input_to_criteria_def st map_health_attribute_def
        lower_def lower_char_def startswith_def)
  have m: "criteria_pairs (map_user_input_to_criteria ascii (Some ?v) None [] [] None [] None [] Map.empty)
           = [(''cooking_method_low_fat'', ''usesCookingMethod'')]"
    by (simp add: criteria_pairs_def map_user_input_to_criteria_def st l [unfolded st])
  have i: "criteria_pairs (map_user_input_to_criteria ascii None None [] [] None [] None [?v] Map.empty)
           = [(''ingredient_low_fat'', ''containsIngredient'')]"
    by (simp add: criteria_pairs_def map_user_input_to_criteria_def st)
  have s: "criteria_pairs (map_user_input_to_criteria ascii None (Some ?v) [] [] None [] None [] Map.empty)
           = [(''servings_bin_low_fat'', ''hasServingsBin'')]"
    by (simp add: criteria_pairs_def map_user_input_to_criteria_def st)
  note t = translator_mirrors_builder [OF u, of "\<lambda>k :: nat. ''1''" 1 Map.empty]
  from t c have "builder_pairs (\<lambda>k :: nat. ''1'')
          (snd (create_graph_and_triples ascii [(1, [''Healthy_Type'' \<mapsto> Text ?v])]))
        = criteria_pairs (map_user_input_to_criteria ascii None None [] [] None [?v] None [] Map.empty)"
    by blast
  moreover from t l have "builder_pairs (\<lambda>k :: nat. ''1'')
          (snd (create_graph_and_triples ascii [(1, [''Cooking_Method'' \<mapsto> Text ?v])]))
        = criteria_pairs (map_user_input_to_criteria ascii (Some ?v) None [] [] None [] None [] Map.empty)"
    by blast
  moreover from t l c have "builder_pairs (\<lambda>k :: nat. ''1'')
          (snd (create_graph_and_triples ascii [(1, [''BestUsdaIngredientName'' \<mapsto> Text ?v])]))
        = criteria_pairs (map_user_input_to_criteria ascii None None [] [] None [] None [?v] Map.empty)"
    by blast
  moreover from t have "builder_pairs (\<lambda>k :: nat. ''1'')
          (snd (create_graph_and_triples ascii [(1, [''servings_bin'' \<mapsto> Text ?v])]))
        = criteria_pairs (map_user_input_to_criteria ascii None (Some ?v) [] [] None [] None [] Map.empty)"
    by blast
  ultimately show ?thesis using u unfolding h m i s by blast
qed

section \<open>Properties of the merge\<close>

lemma filter_key_absent: "l \<notin> fst ` set ys \<Longrightarrow> filter (\<lambda>r. fst r = l) ys = []"
  by (induction ys) auto

lemma filter_key:
  assumes "distinct (map fst ys)"
  shows "filter (\<lambda>r. fst r = l) ys = (case map_of ys l of None \<Rightarrow> [] | Some y \<Rightarrow> [(l, y)])"
  using assms
proof (induction ys)
  case Nil
  show ?case by simp
next
  case (Cons p ys)
  obtain k v where p: "p = (k, v)" by (cases p)
  show ?case
  proof (cases "k = l")
    case True
    with Cons.prems p have "l \<notin> fst ` set ys" by simp
    then have "filter (\<lambda>r. fst r = l) ys = []" by (rule filter_key_absent)
    with True p show ?thesis by simp
  next
    case False
    with Cons p show ?thesis by simp
  qed
qed

lemma merge_inner_eq:
  assumes "distinct (map fst right)"
  shows "merge_inner left right
         = concat (map (\<lambda>(l, x). case map_of right l of None \<Rightarrow> [] | Some y \<Rightarrow> [(l, x + y)]) left)"
proof -
  have "map (\<lambda>(l', y). (l, x + y)) (filter (\<lambda>r. fst r = l) right)
        = (case map_of right l of None \<Rightarrow> [] | Some y \<Rightarrow> [(l, x + y)])" for l and x :: real
    by (simp add: filter_key [OF assms] split: option.splits)
  then show ?thesis by (simp add: merge_inner_def)
qed

lemma merge_outer_eq:
  assumes "distinct (map fst right)"
  shows "merge_outer left right
         = sort_key fst (map (\<lambda>(l, x). (l, x + score_in right l)) left
                         @ filter (\<lambda>r. fst r \<notin> fst ` set left) right)"
proof -
  have "(let matches = filter (\<lambda>r. fst r = l) right
         in if matches = [] then [(l, x + 0)] else map (\<lambda>(l', y). (l, x + y)) matches)
        = [(l, x + score_in right l)]" for l and x :: real
    by (simp add: filter_key [OF assms] score_in_def split: option.splits)
  then have "concat (map (\<lambda>(l, x).
                  (let matches = filter (\<lambda>r. fst r = l) right
                   in if matches = [] then [(l, x + 0)]
                      else map (\<lambda>(l', y). (l, x + y)) matches)) left)
             = map (\<lambda>(l, x). (l, x + score_in right l)) left"
    by (induction left) auto
  moreover have "map (\<lambda>(l', y). (l', 0 + y)) (filter (\<lambda>r. fst r \<notin> fst ` set left) right)
             = filter (\<lambda>r. fst r \<notin> fst ` set left) right"
    by (induction right) auto
  ultimately show ?thesis by (simp add: merge_outer_def)
qed

lemma map_of_sort_key:
  assumes "distinct (map fst xs)"
  shows "map_of (sort_key fst xs) = map_of xs"
proof -
  have "distinct (map fst (sort_key fst xs))"
    using assms by (simp add: distinct_map)
  moreover have "set (sort_key fst xs) = set xs" by simp
  ultimately show ?thesis using assms map_of_inject_set by blast
qed

lemma keys_sort_key: "set (map fst (sort_key fst xs)) = set (map fst xs)"
  by simp

lemma distinct_keys_sort_key: "distinct (map fst (sort_key fst xs)) = distinct (map fst xs)"
  by (simp add: distinct_map)

lemma keys_outer_unsorted:
  "map fst (map (\<lambda>(l, x). (l, x + score_in right l)) left
            @ filter (\<lambda>r. fst r \<notin> fst ` set left) right)
   = map fst left @ filter (\<lambda>l. l \<notin> fst ` set left) (map fst right)"
  by (simp add: filter_map comp_def case_prod_beta)

lemma distinct_merge_outer:
  assumes "distinct (map fst left)" and "distinct (map fst right)"
  shows "distinct (map fst (merge_outer left right))"
  unfolding merge_outer_eq [OF assms(2)] distinct_keys_sort_key keys_outer_unsorted
  using assms by auto

lemma keys_merge_outer:
  assumes "distinct (map fst right)"
  shows "set (map fst (merge_outer left right)) = set (map fst left) \<union> set (map fst right)"
  unfolding merge_outer_eq [OF assms] keys_sort_key keys_outer_unsorted
  by auto

lemma score_in_absent: "l \<notin> fst ` set f \<Longrightarrow> score_in f l = 0"
  by (simp add: score_in_def map_of_eq_None_iff [THEN iffD2])

lemma map_of_rescored:
  "map_of (map (\<lambda>(l, x). (l, x + g l)) left) k = map_option (\<lambda>x. x + g k) (map_of left k)"
  by (induction left) auto

lemma map_of_filter_keys:
  "map_of (filter (\<lambda>r. fst r \<notin> A) right) k = (if k \<in> A then None else map_of right k)"
  by (induction right) auto

lemma score_in_merge_outer:
  assumes "distinct (map fst left)" and "distinct (map fst right)"
  shows "score_in (merge_outer left right) l = score_in left l + score_in right l"
proof -
  let ?U = "map (\<lambda>(l, x). (l, x + score_in right l)) left
            @ filter (\<lambda>r. fst r \<notin> fst ` set left) right"
  have d: "distinct (map fst ?U)"
    unfolding keys_outer_unsorted using assms by auto
  have "map_of (merge_outer left right) l = map_of ?U l"
    unfolding merge_outer_eq [OF assms(2)] by (simp only: map_of_sort_key [OF d])
  also have "\<dots> = (case map_of left l of
                      Some x \<Rightarrow> Some (x + score_in right l)
                    | None \<Rightarrow> map_of right l)"
    by (force simp: map_add_def map_of_rescored map_of_filter_keys map_of_eq_None_iff
        split: option.splits dest: map_of_SomeD)
  finally show ?thesis
    by (auto simp: score_in_def split: option.splits)
qed

lemma keys_merge_inner:
  assumes "distinct (map fst right)"
  shows "map fst (merge_inner left right) = filter (\<lambda>l. l \<in> fst ` set right) (map fst left)"
  unfolding merge_inner_eq [OF assms]
proof (induction left)
  case Nil
  show ?case by simp
next
  case (Cons p left)
  obtain k x where p: "p = (k, x)" by (cases p)
  show ?case
  proof (cases "map_of right k")
    case None
    then have "k \<notin> fst ` set right" by (simp add: map_of_eq_None_iff)
    with None Cons.IH p show ?thesis by simp
  next
    case (Some y)
    then have "k \<in> fst ` set right" by (metis map_of_eq_None_iff option.distinct(1))
    with Some Cons.IH p show ?thesis by simp
  qed
qed

lemma distinct_merge_inner:
  assumes "distinct (map fst left)" and "distinct (map fst right)"
  shows "distinct (map fst (merge_inner left right))"
  unfolding keys_merge_inner [OF assms(2)] using assms(1) by simp

lemma map_of_merge_inner:
  assumes "distinct (map fst left)" and "distinct (map fst right)"
  shows "map_of (merge_inner left right) l
         = (case map_of left l of
              None \<Rightarrow> None
            | Some x \<Rightarrow> (case map_of right l of None \<Rightarrow> None | Some y \<Rightarrow> Some (x + y)))"
  unfolding merge_inner_eq [OF assms(2)] using assms(1)
proof (induction left)
  case Nil
  show ?case by simp
next
  case (Cons p left)
  obtain k x where p: "p = (k, x)" by (cases p)
  from Cons.prems p have nk: "map_of left k = None"
    by (simp add: map_of_eq_None_iff)
  from Cons.prems have "distinct (map fst left)" by simp
  note IH = Cons.IH [OF this]
  show ?case
    using IH nk p by (auto simp: map_add_def split: option.splits)
qed

lemma score_in_merge_inner:
  assumes "distinct (map fst left)" and "distinct (map fst right)"
    and "l \<in> fst ` set left" and "l \<in> fst ` set right"
  shows "score_in (merge_inner left right) l = score_in left l + score_in right l"
  using assms(3,4)
  by (auto simp: score_in_def map_of_merge_inner [OF assms(1,2)] map_of_eq_None_iff
      split: option.splits)

lemma foldl_merge_outer:
  assumes "distinct (map fst m)" and "\<forall>f \<in> set fs. distinct (map fst f)"
  shows "distinct (map fst (foldl merge_outer m fs))
       \<and> set (map fst (foldl merge_outer m fs))
           = set (map fst m) \<union> (\<Union>f \<in> set fs. set (map fst f))
       \<and> (\<forall>l. score_in (foldl merge_outer m fs) l
                = score_in m l + (\<Sum>f\<leftarrow>fs. score_in f l))"
  using assms
proof (induction fs arbitrary: m)
  case Nil
  then show ?case by simp
next
  case (Cons f fs)
  from Cons.prems have df: "distinct (map fst f)" and dfs: "\<forall>f \<in> set fs. distinct (map fst f)"
    by simp_all
  have dm: "distinct (map fst (merge_outer m f))"
    using Cons.prems(1) df by (rule distinct_merge_outer)
  note IH = Cons.IH [OF dm dfs]
  have k: "set (map fst (merge_outer m f)) = set (map fst m) \<union> set (map fst f)"
    using df by (rule keys_merge_outer)
  have s: "score_in (merge_outer m f) l = score_in m l + score_in f l" for l
    using Cons.prems(1) df by (rule score_in_merge_outer)
  show ?case
    using IH unfolding k s by (auto simp: add.assoc)
qed

lemma foldl_merge_inner:
  assumes "distinct (map fst m)" and "\<forall>f \<in> set fs. distinct (map fst f)"
  shows "distinct (map fst (foldl merge_inner m fs))
       \<and> set (map fst (foldl merge_inner m fs))
           = set (map fst m) \<inter> (\<Inter>f \<in> set fs. set (map fst f))
       \<and> (\<forall>l \<in> set (map fst (foldl merge_inner m fs)).
             score_in (foldl merge_inner m fs) l
             = score_in m l + (\<Sum>f\<leftarrow>fs. score_in f l))"
  using assms
proof (induction fs arbitrary: m)
  case Nil
  then show ?case by simp
next
  case (Cons f fs)
  from Cons.prems have df: "distinct (map fst f)" and dfs: "\<forall>f \<in> set fs. distinct (map fst f)"
    by simp_all
  have dm: "distinct (map fst (merge_inner m f))"
    using Cons.prems(1) df by (rule distinct_merge_inner)
  note IH = Cons.IH [OF dm dfs]
  have k: "set (map fst (merge_inner m f)) = set (map fst m) \<inter> set (map fst f)"
    unfolding keys_merge_inner [OF df] by auto
  have s: "score_in (merge_inner m f) l = score_in m l + score_in f l"
    if "l \<in> set (map fst m) \<inter> set (map fst f)" for l
    using score_in_merge_inner [OF Cons.prems(1) df, of l] that by simp
  let ?R = "foldl merge_inner (merge_inner m f) fs"
  have 1: "distinct (map fst ?R)" using IH by blast
  have 2: "set (map fst ?R)
           = set (map fst m) \<inter> (\<Inter>g \<in> set (f # fs). set (map fst g))"
    using IH unfolding k by auto
  have 3: "score_in ?R l = score_in m l + (\<Sum>g\<leftarrow>f # fs. score_in g l)"
    if l: "l \<in> set (map fst ?R)" for l
  proof -
    from l 2 have "l \<in> set (map fst m) \<inter> set (map fst f)" by auto
    then have "score_in (merge_inner m f) l = score_in m l + score_in f l" by (rule s)
    moreover have "score_in ?R l = score_in (merge_inner m f) l + (\<Sum>g\<leftarrow>fs. score_in g l)"
      using IH l by blast
    ultimately show ?thesis by simp
  qed
  show ?case using 1 2 3 by simp
qed

lemma length_MinMaxScaler [simp]: "length (MinMaxScaler_fit_transform xs) = length xs"
  by (cases xs) (simp_all add: Let_def)

lemma keys_score_criterion:
  "map fst (score_criterion predict c) = map fst (predict (fst (snd c)) (fst c))"
proof -
  obtain tail relation weight where c: "c = (tail, relation, weight)" by (cases c)
  have "map fst (normalize_scores df) = map fst df" for df
    by (simp add: normalize_scores_def)
  then show ?thesis
    by (simp add: c score_criterion_def comp_def case_prod_beta)
qed

lemma merge_all_flexible: "merge_all True first others = foldl merge_outer first others"
  by (simp add: merge_all_def)

lemma merge_all_strict: "merge_all False first others = foldl merge_inner first others"
  by (simp add: merge_all_def)

lemma row_score:
  assumes "distinct (map fst f)" and "(l, s) \<in> set f"
  shows "s = score_in f l"
  using assms by (simp add: score_in_def)

text \<open>
  C2: let each criterion's frame list every label once, as a model that scores every
  entity does. After the merge loop of \<open>get_matching_recipes\<close> over the criteria
  \<open>c0 # cs\<close>, every label occurs once in \<open>merged\<close>; when \<open>flexible\<close> is true the labels
  are the union of the labels of all criteria, when it is false they are the labels
  present in every criterion's frame; and in both cases a row's score is the sum, over all
  criteria, of the label's weighted score in that criterion's frame, a frame without the
  label contributing 0.
\<close>

theorem merge_union_intersection:
  assumes "\<forall>c \<in> set (c0 # cs). distinct (map fst (predict (fst (snd c)) (fst c)))"
  shows "distinct (map fst (merge_all flexible (score_criterion predict c0)
                             (map (score_criterion predict) cs)))
       \<and> (flexible \<longrightarrow>
            set (map fst (merge_all flexible (score_criterion predict c0)
                            (map (score_criterion predict) cs)))
            = (\<Union>c \<in> set (c0 # cs). set (map fst (score_criterion predict c))))
       \<and> (\<not> flexible \<longrightarrow>
            set (map fst (merge_all flexible (score_criterion predict c0)
                            (map (score_criterion predict) cs)))
            = (\<Inter>c \<in> set (c0 # cs). set (map fst (score_criterion predict c))))
       \<and> (\<forall>row \<in> set (merge_all flexible (score_criterion predict c0)
                           (map (score_criterion predict) cs)).
             snd row = (\<Sum>c\<leftarrow>c0 # cs. score_in (score_criterion predict c) (fst row)))"
proof -
  let ?m = "score_criterion predict c0"
  let ?fs = "map (score_criterion predict) cs"
  have dm: "distinct (map fst ?m)"
    using assms by (simp add: keys_score_criterion)
  have dfs: "\<forall>f \<in> set ?fs. distinct (map fst f)"
    using assms by (simp add: keys_score_criterion)
  have sum: "(\<Sum>f\<leftarrow>?fs. score_in f l) = (\<Sum>c\<leftarrow>cs. score_in (score_criterion predict c) l)"
    for l by (simp add: comp_def)
  show ?thesis
  proof (cases flexible)
    case True
    let ?M = "foldl merge_outer ?m ?fs"
    from foldl_merge_outer [OF dm dfs]
    have d: "distinct (map fst ?M)"
      and k: "set (map fst ?M) = set (map fst ?m) \<union> (\<Union>f \<in> set ?fs. set (map fst f))"
      and sc: "\<And>l. score_in ?M l = score_in ?m l + (\<Sum>f\<leftarrow>?fs. score_in f l)"
      by blast+
    have rows: "snd row = (\<Sum>c\<leftarrow>c0 # cs. score_in (score_criterion predict c) (fst row))"
      if "row \<in> set ?M" for row
    proof -
      from that have "(fst row, snd row) \<in> set ?M" by simp
      then have "snd row = score_in ?M (fst row)" by (rule row_score [OF d])
      also have "\<dots> = score_in ?m (fst row) + (\<Sum>f\<leftarrow>?fs. score_in f (fst row))"
        by (rule sc)
      also have "\<dots> = score_in ?m (fst row)
                      + (\<Sum>c\<leftarrow>cs. score_in (score_criterion predict c) (fst row))"
        by (simp only: sum)
      finally show ?thesis by simp
    qed
    show ?thesis
      using True d k rows by (simp add: merge_all_flexible)
  next
    case False
    let ?M = "foldl merge_inner ?m ?fs"
    from foldl_merge_inner [OF dm dfs]
    have d: "distinct (map fst ?M)"
      and k: "set (map fst ?M) = set (map fst ?m) \<inter> (\<Inter>f \<in> set ?fs. set (map fst f))"
      and sc: "\<And>l. l \<in> set (map fst ?M) \<Longrightarrow>
                  score_in ?M l = score_in ?m l + (\<Sum>f\<leftarrow>?fs. score_in f l)"
      by blast+
    have rows: "snd row = (\<Sum>c\<leftarrow>c0 # cs. score_in (score_criterion predict c) (fst row))"
      if "row \<in> set ?M" for row
    proof -
      from that have "(fst row, snd row) \<in> set ?M" by simp
      then have "snd row = score_in ?M (fst row)" by (rule row_score [OF d])
      also have "\<dots> = score_in ?m (fst row) + (\<Sum>f\<leftarrow>?fs. score_in f (fst row))"
        using that by (intro sc) simp
      also have "\<dots> = score_in ?m (fst row)
                      + (\<Sum>c\<leftarrow>cs. score_in (score_criterion predict c) (fst row))"
        by (simp only: sum)
      finally show ?thesis by simp
    qed
    show ?thesis
      using False d k rows by (simp add: merge_all_strict)
  qed
qed

theorem merge_union_intersection_witness:
  "set (map fst (merge_all True
      (score_criterion
         (\<lambda>relation tail. if tail = ''A'' then [(''recipe_1'', 1), (''recipe_2'', 3)]
                             else [(''recipe_2'', 2), (''recipe_3'', 4)])
         (''A'', ''isForMealType'', 1))
      (map (score_criterion
         (\<lambda>relation tail. if tail = ''A'' then [(''recipe_1'', 1), (''recipe_2'', 3)]
                             else [(''recipe_2'', 2), (''recipe_3'', 4)]))
         [(''B'', ''hasDietType'', 1)])))
   = {''recipe_1'', ''recipe_2'', ''recipe_3''}
   \<and> set (map fst (merge_all False
      (score_criterion
         (\<lambda>relation tail. if tail = ''A'' then [(''recipe_1'', 1), (''recipe_2'', 3)]
                             else [(''recipe_2'', 2), (''recipe_3'', 4)])
         (''A'', ''isForMealType'', 1))
      (map (score_criterion
         (\<lambda>relation tail. if tail = ''A'' then [(''recipe_1'', 1), (''recipe_2'', 3)]
                             else [(''recipe_2'', 2), (''recipe_3'', 4)]))
         [(''B'', ''hasDietType'', 1)])))
   = {''recipe_2''}"
proof -
  let ?p = "\<lambda>relation tail :: string.
              if tail = ''A'' then [(''recipe_1'', 1 :: real), (''recipe_2'', 3)]
              else [(''recipe_2'', 2), (''recipe_3'', 4)]"
  let ?a = "(''A'', ''isForMealType'', 1 :: real)"
  let ?b = "(''B'', ''hasDietType'', 1 :: real)"
  have h: "\<forall>c \<in> set (?a # [?b]). distinct (map fst (?p (fst (snd c)) (fst c)))"
    by simp
  have ka: "set (map fst (score_criterion ?p ?a)) = {''recipe_1'', ''recipe_2''}"
    by (simp add: keys_score_criterion)
  have kb: "set (map fst (score_criterion ?p ?b)) = {''recipe_2'', ''recipe_3''}"
    by (simp add: keys_score_criterion)
  from merge_union_intersection [OF h, of True]
  have u: "set (map fst (merge_all True (score_criterion ?p ?a) (map (score_criterion ?p) [?b])))
           = (\<Union>c \<in> set (?a # [?b]). set (map fst (score_criterion ?p c)))"
    by blast
  from merge_union_intersection [OF h, of False]
  have i: "set (map fst (merge_all False (score_criterion ?p ?a) (map (score_criterion ?p) [?b])))
           = (\<Inter>c \<in> set (?a # [?b]). set (map fst (score_criterion ?p c)))"
    by blast
  have "(\<Union>c \<in> set (?a # [?b]). set (map fst (score_criterion ?p c)))
        = {''recipe_1'', ''recipe_2'', ''recipe_3''}"
    using ka kb by auto
  moreover have "(\<Inter>c \<in> set (?a # [?b]). set (map fst (score_criterion ?p c))) = {''recipe_2''}"
    using ka kb by auto
  ultimately show ?thesis using u i by simp
qed

end
